theory Spec2Isabelle
  imports Complex_Main
begin

section \<open>MobileNetV3-Small architecture assembly (templates/mobilenetV3/experiment.py)\<close>

text \<open>
  Conventions of the embedding. Python's unbounded \<open>int\<close> is \<open>int\<close>. Python's
  \<open>float\<close> is modelled by the ideal real number it stands for (\<open>real\<close>): rounding of
  binary floating point, infinities and NaN are outside the model. Every exception the
  code can raise is a value \<open>Inl e\<close> of a result type \<open>error + 'a\<close>. A class is a
  record of the attributes its constructor sets, and the constructor is a function of the
  same name. Kernel size, stride, padding and dilation are single integers, as every call
  of the source passes them. The training loop, data loading, argument parsing and the
  printing of the state dictionary's names are not part of the embedding.
\<close>

subsection \<open>Errors\<close>

datatype error =
    ZeroDivisionError
  | IndexError
  | ValueError string
  | RuntimeError string

definition bind_result :: "error + 'a \<Rightarrow> ('a \<Rightarrow> error + 'b) \<Rightarrow> error + 'b" where
  "bind_result r f = (case r of Inl e \<Rightarrow> Inl e | Inr x \<Rightarrow> f x)"

subsection \<open>The channel quantizer \<open>_make_divisible\<close>\<close>

text \<open>Python's \<open>int(x)\<close> on a float truncates towards zero.\<close>

definition py_int :: "real \<Rightarrow> int" where
  "py_int x = (if 0 \<le> x then \<lfloor>x\<rfloor> else \<lceil>x\<rceil>)"

text \<open>
  \<open>_make_divisible(v, divisor, min_value=None)\<close>. \<open>divisor / 2\<close> is true division,
  \<open>//\<close> is floor division on integers and raises \<open>ZeroDivisionError\<close> for a zero
  divisor.
\<close>

definition make_divisible :: "real \<Rightarrow> int \<Rightarrow> int option \<Rightarrow> error + int" where
  "make_divisible v divisor min_value =
     (let min_value = (case min_value of None \<Rightarrow> divisor | Some m \<Rightarrow> m) in
      if divisor = 0 then Inl ZeroDivisionError
      else
        let new_v = max min_value (py_int (v + real_of_int divisor / 2) div divisor * divisor);
            new_v = (if real_of_int new_v < 0.9 * v then new_v + divisor else new_v)
        in Inr new_v)"

text \<open>
  The quantizer as the specification words it (section 4.1):
  \<open>candidate = max(min_value, floor((v + divisor/2) / divisor) * divisor)\<close>; the result
  is \<open>candidate + divisor\<close> if \<open>candidate < 0.9 * v\<close>, else \<open>candidate\<close>.
\<close>

definition quantize_spec :: "real \<Rightarrow> int \<Rightarrow> int \<Rightarrow> int" where
  "quantize_spec v divisor min_value =
     (let candidate = max min_value (\<lfloor>(v + real_of_int divisor / 2) / real_of_int divisor\<rfloor> * divisor)
      in if real_of_int candidate < 0.9 * v then candidate + divisor else candidate)"

subsection \<open>Layer descriptors of the tensor library\<close>

text \<open>
  The network is assembled from layers of the tensor library (\<open>torch.nn\<close>). A layer is
  represented by the arguments it was constructed with; its learned parameters live in
  the state dictionary (below), and its arithmetic is supplied by the substrate (below).
\<close>

datatype activation = ReLU | Hardswish | Hardsigmoid

record Conv2d =
  conv_in_channels :: int
  conv_out_channels :: int
  conv_kernel_size :: int
  conv_stride :: int
  conv_padding :: int
  conv_dilation :: int
  conv_groups :: int
  conv_bias :: bool

record BatchNorm2d =
  num_features :: int
  eps :: real
  momentum :: real

record Linear =
  in_features :: int
  out_features :: int

datatype AdaptiveAvgPool2d = AdaptiveAvgPool2d int

type_synonym norm_layer = "int \<Rightarrow> BatchNorm2d"

subsection \<open>\<open>SqueezeExcitation\<close>\<close>

record SqueezeExcitation =
  avgpool :: AdaptiveAvgPool2d
  fc1 :: Conv2d
  fc2 :: Conv2d
  se_activation :: activation
  scale_activation :: activation

text \<open>
  \<open>nn.Conv2d(a, b, 1)\<close>: stride 1, padding 0, dilation 1, groups 1 and a bias are the
  library's defaults.
\<close>

definition SqueezeExcitation ::
  "int \<Rightarrow> int \<Rightarrow> activation \<Rightarrow> activation \<Rightarrow> SqueezeExcitation" where
  "SqueezeExcitation input_channels squeeze_channels activation scale_act =
     \<lparr>avgpool = AdaptiveAvgPool2d 1,
      fc1 = \<lparr>conv_in_channels = input_channels, conv_out_channels = squeeze_channels,
             conv_kernel_size = 1, conv_stride = 1, conv_padding = 0, conv_dilation = 1,
             conv_groups = 1, conv_bias = True\<rparr>,
      fc2 = \<lparr>conv_in_channels = squeeze_channels, conv_out_channels = input_channels,
             conv_kernel_size = 1, conv_stride = 1, conv_padding = 0, conv_dilation = 1,
             conv_groups = 1, conv_bias = True\<rparr>,
      se_activation = activation,
      scale_activation = scale_act\<rparr>"

subsection \<open>\<open>ConvNormActivation\<close>\<close>

datatype layer = LConv2d Conv2d | LBatchNorm2d BatchNorm2d | LActivation activation

record ConvNormActivation =
  layers :: "layer list"
  cna_out_channels :: int

text \<open>
  Arguments in the order of the source: \<open>in_channels, out_channels, kernel_size, stride,
  padding, groups, norm_layer, activation_layer, dilation, bias\<close>; \<open>None\<close> is \<open>None\<close>.
\<close>

definition ConvNormActivation ::
  "int \<Rightarrow> int \<Rightarrow> int \<Rightarrow> int \<Rightarrow> int option \<Rightarrow> int \<Rightarrow> norm_layer option \<Rightarrow>
   activation option \<Rightarrow> int \<Rightarrow> bool option \<Rightarrow> ConvNormActivation" where
  "ConvNormActivation in_channels out_channels kernel_size stride padding groups norm_layer
       activation_layer dilation bias =
     (let padding = (case padding of None \<Rightarrow> (kernel_size - 1) div 2 * dilation | Some p \<Rightarrow> p);
          bias = (case bias of None \<Rightarrow> (norm_layer = None) | Some b \<Rightarrow> b);
          layers = [LConv2d \<lparr>conv_in_channels = in_channels, conv_out_channels = out_channels,
                      conv_kernel_size = kernel_size, conv_stride = stride,
                      conv_padding = padding, conv_dilation = dilation,
                      conv_groups = groups, conv_bias = bias\<rparr>];
          layers = (case norm_layer of None \<Rightarrow> layers
                    | Some nl \<Rightarrow> layers @ [LBatchNorm2d (nl out_channels)]);
          layers = (case activation_layer of None \<Rightarrow> layers
                    | Some a \<Rightarrow> layers @ [LActivation a])
      in \<lparr>layers = layers, cna_out_channels = out_channels\<rparr>)"

subsection \<open>\<open>InvertedResidualConfig\<close>\<close>

record InvertedResidualConfig =
  input_channels :: int
  kernel :: int
  expanded_channels :: int
  out_channels :: int
  use_se :: bool
  activation :: string
  stride :: int
  dilation :: int

definition adjust_channels :: "int \<Rightarrow> real \<Rightarrow> error + int" where
  "adjust_channels channels width_mult = make_divisible (real_of_int channels * width_mult) 8 None"

definition InvertedResidualConfig ::
  "int \<Rightarrow> int \<Rightarrow> int \<Rightarrow> int \<Rightarrow> bool \<Rightarrow> string \<Rightarrow> int \<Rightarrow> int \<Rightarrow> real \<Rightarrow>
   error + InvertedResidualConfig" where
  "InvertedResidualConfig input_c kernel_a expanded_c out_c use_se_a activation_a stride_a
       dilation_a width_mult =
     bind_result (adjust_channels input_c width_mult) (\<lambda>ic.
     bind_result (adjust_channels expanded_c width_mult) (\<lambda>ec.
     bind_result (adjust_channels out_c width_mult) (\<lambda>oc.
     Inr \<lparr>input_channels = ic, kernel = kernel_a, expanded_channels = ec, out_channels = oc,
          use_se = use_se_a, activation = activation_a, stride = stride_a,
          dilation = dilation_a\<rparr>)))"

subsection \<open>\<open>InvertedResidual\<close>\<close>

datatype block_layer =
    BConvNormActivation ConvNormActivation
  | BSqueezeExcitation SqueezeExcitation

record InvertedResidual =
  use_res_connect :: bool
  block :: "block_layer list"
  ir_out_channels :: int
  is_strided :: bool

type_synonym se_layer = "int \<Rightarrow> int \<Rightarrow> activation \<Rightarrow> SqueezeExcitation"

text \<open>The default \<open>se_layer = partial(SqueezeExcitation, scale_activation=nn.Hardsigmoid)\<close>.\<close>

definition se_layer_default :: se_layer where
  "se_layer_default input_c squeeze_c act = SqueezeExcitation input_c squeeze_c act Hardsigmoid"

definition InvertedResidual ::
  "InvertedResidualConfig \<Rightarrow> norm_layer \<Rightarrow> se_layer \<Rightarrow> error + InvertedResidual" where
  "InvertedResidual cnf norm_layer se_layer =
     (if \<not> (1 \<le> stride cnf \<and> stride cnf \<le> 2) then Inl (ValueError ''Illegal stride value'')
      else
        let res_connect = (stride cnf = 1 \<and> input_channels cnf = out_channels cnf);
            activation_layer = (if activation cnf = ''HS'' then Hardswish else ReLU);
            expand =
              (if expanded_channels cnf \<noteq> input_channels cnf
               then [BConvNormActivation
                       (ConvNormActivation (input_channels cnf) (expanded_channels cnf) 1 1 None 1
                          (Some norm_layer) (Some activation_layer) 1 None)]
               else []);
            depthwise =
              [BConvNormActivation
                 (ConvNormActivation (expanded_channels cnf) (expanded_channels cnf) (kernel cnf)
                    (stride cnf) None (expanded_channels cnf) (Some norm_layer)
                    (Some activation_layer) (dilation cnf) None)];
            project =
              [BConvNormActivation
                 (ConvNormActivation (expanded_channels cnf) (out_channels cnf) 1 1 None 1
                    (Some norm_layer) None 1 None)]
        in
          bind_result
            (if use_se cnf
             then bind_result (make_divisible (real_of_int (expanded_channels cnf div 4)) 8 None)
                    (\<lambda>squeeze_channels.
                       Inr [BSqueezeExcitation (se_layer (expanded_channels cnf) squeeze_channels ReLU)])
             else Inr [])
            (\<lambda>se. Inr \<lparr>use_res_connect = res_connect,
                        block = expand @ depthwise @ se @ project,
                        ir_out_channels = out_channels cnf,
                        is_strided = (stride cnf > 1)\<rparr>))"

subsection \<open>\<open>MobileNetV3Small\<close>\<close>

datatype feature =
    FConvNormActivation ConvNormActivation
  | FInvertedResidual InvertedResidual

datatype head_layer = HLinear Linear | HActivation activation | HDropout real

record MobileNetV3Small =
  features :: "feature list"
  net_avgpool :: AdaptiveAvgPool2d
  classifier :: "head_layer list"

text \<open>
  Running a list of constructor calls from left to right (the list literal of the setting,
  the loop over its rows): the first error ends the run.
\<close>

fun collect :: "(error + 'a) list \<Rightarrow> error + 'a list" where
  "collect [] = Inr []"
| "collect (r # rs) = bind_result r (\<lambda>x. bind_result (collect rs) (\<lambda>xs. Inr (x # xs)))"

definition inverted_residual_setting ::
  "real \<Rightarrow> bool \<Rightarrow> bool \<Rightarrow> error + InvertedResidualConfig list" where
  "inverted_residual_setting width_mult reduced_tail dilated =
     (let bneck_conf = (\<lambda>input_c k expanded_c out_c se nl s d.
            InvertedResidualConfig input_c k expanded_c out_c se nl s d width_mult);
          reduce_divider = (if reduced_tail then 2 else 1);
          dilation_a = (if dilated then 2 else 1)
      in collect
        [bneck_conf 16 3 16 16 True ''RE'' 2 1,
         bneck_conf 16 3 72 24 False ''RE'' 2 1,
         bneck_conf 24 3 88 24 False ''RE'' 1 1,
         bneck_conf 24 5 96 40 True ''HS'' 2 1,
         bneck_conf 40 5 240 40 True ''HS'' 1 1,
         bneck_conf 40 5 240 40 True ''HS'' 1 1,
         bneck_conf 40 5 120 48 True ''HS'' 1 1,
         bneck_conf 48 5 144 48 True ''HS'' 1 1,
         bneck_conf 48 5 (288 div reduce_divider) (96 div reduce_divider) True ''HS'' 2 dilation_a,
         bneck_conf (96 div reduce_divider) 5 (576 div reduce_divider) (96 div reduce_divider)
           True ''HS'' 1 dilation_a,
         bneck_conf (96 div reduce_divider) 5 (576 div reduce_divider) (96 div reduce_divider)
           True ''HS'' 1 dilation_a])"

text \<open>The default \<open>norm_layer = partial(nn.BatchNorm2d, eps=0.001, momentum=0.01)\<close>.\<close>

definition norm_layer_default :: norm_layer where
  "norm_layer_default n = \<lparr>num_features = n, eps = 0.001, momentum = 0.01\<rparr>"

text \<open>
  Python's \<open>xs[0]\<close> and \<open>xs[-1]\<close> raise \<open>IndexError\<close> on an empty list; the setting
  has eleven rows, so the branch is never taken, but it is part of the operation.
\<close>

definition first_item :: "'a list \<Rightarrow> error + 'a" where
  "first_item xs = (if xs = [] then Inl IndexError else Inr (hd xs))"

definition last_item :: "'a list \<Rightarrow> error + 'a" where
  "last_item xs = (if xs = [] then Inl IndexError else Inr (last xs))"

definition MobileNetV3Small ::
  "int \<Rightarrow> real \<Rightarrow> real \<Rightarrow> bool \<Rightarrow> bool \<Rightarrow> norm_layer option \<Rightarrow> error + MobileNetV3Small" where
  "MobileNetV3Small num_classes width_mult dropout reduced_tail dilated norm_layer =
     (let norm_layer = (case norm_layer of None \<Rightarrow> norm_layer_default | Some nl \<Rightarrow> nl);
          reduce_divider = (if reduced_tail then 2 else (1::int))
      in
      bind_result (inverted_residual_setting width_mult reduced_tail dilated) (\<lambda>setting.
      bind_result (make_divisible (real_of_int (1024 div reduce_divider) * width_mult) 8 None)
        (\<lambda>last_channel.
      bind_result (first_item setting) (\<lambda>cnf0.
      let firstconv_output_channels = input_channels cnf0;
          stem = [FConvNormActivation
                    (ConvNormActivation 3 firstconv_output_channels 3 2 None 1 (Some norm_layer)
                       (Some Hardswish) 1 None)]
      in
      bind_result (collect (map (\<lambda>cnf. InvertedResidual cnf norm_layer se_layer_default) setting))
        (\<lambda>blocks.
      bind_result (last_item setting) (\<lambda>cnf_last.
      let lastconv_input_channels = out_channels cnf_last in
      bind_result (make_divisible (576 * width_mult) 8 None) (\<lambda>lastconv_output_channels.
      let tail = [FConvNormActivation
                    (ConvNormActivation lastconv_input_channels lastconv_output_channels 1 1 None 1
                       (Some norm_layer) (Some Hardswish) 1 None)]
      in
      Inr \<lparr>features = stem @ map FInvertedResidual blocks @ tail,
           net_avgpool = AdaptiveAvgPool2d 1,
           classifier =
             [HLinear \<lparr>in_features = lastconv_output_channels, out_features = last_channel\<rparr>,
              HActivation Hardswish,
              HDropout dropout,
              HLinear \<lparr>in_features = last_channel, out_features = num_classes\<rparr>]\<rparr>)))))))"

subsection \<open>Tensors and the arithmetic substrate\<close>

text \<open>
  A tensor is its shape and its elements, read by index. The learned, statistical and
  random arithmetic of the library (the values a convolution, a normalisation, a linear
  map or a dropout produces) is a parameter of the model, the \<open>substrate\<close>: one function
  per kind of layer, told apart by the layer's path in the module tree, so that every
  layer instance has its own weights. What the library documents about shapes, and the
  element-wise operations, are written out. A normalisation is taken in evaluation mode,
  with frozen statistics: it accepts every four-dimensional input with its number of
  channels. (In training mode the library's batch normalisation also refuses an input
  with a single value per channel; that check is not modelled.)
\<close>

record tensor =
  shape :: "int list"
  elem :: "nat list \<Rightarrow> real"

definition valid_index :: "int list \<Rightarrow> nat list \<Rightarrow> bool" where
  "valid_index s i = list_all2 (\<lambda>n d. int n < d) i s"

datatype name = Attr string | Item nat

type_synonym path = "name list"

record substrate =
  conv2d_values :: "path \<Rightarrow> Conv2d \<Rightarrow> tensor \<Rightarrow> nat list \<Rightarrow> real"
  batch_norm_values :: "path \<Rightarrow> BatchNorm2d \<Rightarrow> tensor \<Rightarrow> nat list \<Rightarrow> real"
  linear_values :: "path \<Rightarrow> Linear \<Rightarrow> tensor \<Rightarrow> nat list \<Rightarrow> real"
  dropout_values :: "path \<Rightarrow> real \<Rightarrow> tensor \<Rightarrow> nat list \<Rightarrow> real"

definition apply_activation :: "activation \<Rightarrow> real \<Rightarrow> real" where
  "apply_activation a x =
     (case a of
        ReLU \<Rightarrow> max 0 x
      | Hardswish \<Rightarrow> x * min (max (x + 3) 0) 6 / 6
      | Hardsigmoid \<Rightarrow> min (max (x + 3) 0) 6 / 6)"

definition activation_forward :: "activation \<Rightarrow> tensor \<Rightarrow> tensor" where
  "activation_forward a x = \<lparr>shape = shape x, elem = (\<lambda>i. apply_activation a (elem x i))\<rparr>"

text \<open>
  A two-dimensional convolution maps \<open>[B, C, H, W]\<close> to \<open>[B, out_channels, H', W']\<close> with
  \<open>H' = floor((H + 2 * padding - dilation * (kernel_size - 1) - 1) / stride) + 1\<close>. It is
  rejected when the layer's arguments are not those of a convolution, when the input is
  not four-dimensional, when its channel count is not \<open>in_channels\<close>, and when the padded
  input is smaller than the dilated kernel.
\<close>

definition conv_out_size :: "Conv2d \<Rightarrow> int \<Rightarrow> int" where
  "conv_out_size c n =
     (n + 2 * conv_padding c - conv_dilation c * (conv_kernel_size c - 1) - 1) div conv_stride c + 1"

definition conv_args_ok :: "Conv2d \<Rightarrow> bool" where
  "conv_args_ok c =
     (0 < conv_groups c \<and> conv_in_channels c mod conv_groups c = 0 \<and>
      conv_out_channels c mod conv_groups c = 0 \<and> 0 < conv_in_channels c \<and>
      0 < conv_out_channels c \<and> 0 < conv_kernel_size c \<and> 0 < conv_stride c \<and>
      0 \<le> conv_padding c \<and> 0 < conv_dilation c)"

definition Conv2d_forward :: "substrate \<Rightarrow> path \<Rightarrow> Conv2d \<Rightarrow> tensor \<Rightarrow> error + tensor" where
  "Conv2d_forward P p c x =
     (case shape x of
        [B, C, H, W] \<Rightarrow>
          if \<not> conv_args_ok c then Inl (ValueError ''invalid convolution arguments'')
          else if C \<noteq> conv_in_channels c then Inl (RuntimeError ''channel mismatch'')
          else if H + 2 * conv_padding c < conv_dilation c * (conv_kernel_size c - 1) + 1
                  \<or> W + 2 * conv_padding c < conv_dilation c * (conv_kernel_size c - 1) + 1
          then Inl (RuntimeError ''kernel larger than padded input'')
          else Inr \<lparr>shape = [B, conv_out_channels c, conv_out_size c H, conv_out_size c W],
                    elem = conv2d_values P p c x\<rparr>
      | _ \<Rightarrow> Inl (RuntimeError ''expected 4D input''))"

definition BatchNorm2d_forward ::
  "substrate \<Rightarrow> path \<Rightarrow> BatchNorm2d \<Rightarrow> tensor \<Rightarrow> error + tensor" where
  "BatchNorm2d_forward P p b x =
     (case shape x of
        [B, C, H, W] \<Rightarrow>
          if C \<noteq> num_features b then Inl (RuntimeError ''channel mismatch'')
          else Inr \<lparr>shape = shape x, elem = batch_norm_values P p b x\<rparr>
      | _ \<Rightarrow> Inl (ValueError ''expected 4D input''))"

definition Linear_forward :: "substrate \<Rightarrow> path \<Rightarrow> Linear \<Rightarrow> tensor \<Rightarrow> error + tensor" where
  "Linear_forward P p l x =
     (if shape x = [] \<or> last (shape x) \<noteq> in_features l \<or> out_features l < 0
      then Inl (RuntimeError ''shapes cannot be multiplied'')
      else Inr \<lparr>shape = butlast (shape x) @ [out_features l], elem = linear_values P p l x\<rparr>)"

definition Dropout_forward :: "substrate \<Rightarrow> path \<Rightarrow> real \<Rightarrow> tensor \<Rightarrow> error + tensor" where
  "Dropout_forward P p r x = Inr \<lparr>shape = shape x, elem = dropout_values P p r x\<rparr>"

text \<open>
  Adaptive average pooling to \<open>n \<times> n\<close>: output cell \<open>i\<close> of a dimension of size \<open>H\<close>
  averages the inputs \<open>floor(i * H / n) ..< ceil((i + 1) * H / n)\<close>; for \<open>n = 1\<close> this
  is the mean over the whole plane.
\<close>

definition pool_window :: "int \<Rightarrow> int \<Rightarrow> nat \<Rightarrow> nat list" where
  "pool_window H n i = [nat (int i * H div n) ..< nat ((int (Suc i) * H + n - 1) div n)]"

definition AdaptiveAvgPool2d_forward :: "AdaptiveAvgPool2d \<Rightarrow> tensor \<Rightarrow> error + tensor" where
  "AdaptiveAvgPool2d_forward m x =
     (case m of AdaptiveAvgPool2d n \<Rightarrow>
       (case shape x of
          [B, C, H, W] \<Rightarrow>
            if C \<le> 0 \<or> H \<le> 0 \<or> W \<le> 0 \<or> n \<le> 0
            then Inl (RuntimeError ''pooling an empty plane'')
            else Inr \<lparr>shape = [B, C, n, n],
                      elem = (\<lambda>i. case i of
                              [b, c, h, w] \<Rightarrow>
                                (\<Sum>h' \<leftarrow> pool_window H n h. \<Sum>w' \<leftarrow> pool_window W n w.
                                    elem x [b, c, h', w'])
                                / real (length (pool_window H n h) * length (pool_window W n w))
                            | _ \<Rightarrow> 0)\<rparr>
        | _ \<Rightarrow> Inl (RuntimeError ''expected 4D input'')))"

text \<open>\<open>torch.flatten(x, 1)\<close>: all dimensions after the first become one, in row-major order.\<close>

fun unravel :: "int list \<Rightarrow> nat \<Rightarrow> nat list" where
  "unravel [] j = []"
| "unravel (d # ds) j = (j div nat (prod_list ds)) # unravel ds (j mod nat (prod_list ds))"

definition flatten1 :: "tensor \<Rightarrow> error + tensor" where
  "flatten1 x =
     (case shape x of
        b # d # ds \<Rightarrow>
          Inr \<lparr>shape = [b, prod_list (d # ds)],
               elem = (\<lambda>i. case i of [n, j] \<Rightarrow> elem x (n # unravel (d # ds) j) | _ \<Rightarrow> 0)\<rparr>
      | _ \<Rightarrow> Inl (RuntimeError ''Dimension out of range''))"

text \<open>
  Element-wise binary operations broadcast: shapes are aligned at the last dimension, and
  two sizes are compatible when they are equal or one of them is 1.
\<close>

fun broadcast_rev :: "int list \<Rightarrow> int list \<Rightarrow> error + int list" where
  "broadcast_rev [] ys = Inr ys"
| "broadcast_rev xs [] = Inr xs"
| "broadcast_rev (x # xs) (y # ys) =
     (if x = y \<or> y = 1 then bind_result (broadcast_rev xs ys) (\<lambda>r. Inr (x # r))
      else if x = 1 then bind_result (broadcast_rev xs ys) (\<lambda>r. Inr (y # r))
      else Inl (RuntimeError ''sizes do not match''))"

definition broadcast_shapes :: "int list \<Rightarrow> int list \<Rightarrow> error + int list" where
  "broadcast_shapes a b = bind_result (broadcast_rev (rev a) (rev b)) (\<lambda>r. Inr (rev r))"

definition broadcast_index :: "int list \<Rightarrow> nat list \<Rightarrow> nat list" where
  "broadcast_index s i =
     map2 (\<lambda>d n. if d = 1 then 0 else n) s (drop (length i - length s) i)"

definition tensor_binop :: "(real \<Rightarrow> real \<Rightarrow> real) \<Rightarrow> tensor \<Rightarrow> tensor \<Rightarrow> error + tensor" where
  "tensor_binop f x y =
     bind_result (broadcast_shapes (shape x) (shape y)) (\<lambda>s.
       Inr \<lparr>shape = s,
            elem = (\<lambda>i. f (elem x (broadcast_index (shape x) i))
                         (elem y (broadcast_index (shape y) i)))\<rparr>)"

definition tensor_mul :: "tensor \<Rightarrow> tensor \<Rightarrow> error + tensor" where
  "tensor_mul = tensor_binop (*)"

definition tensor_add :: "tensor \<Rightarrow> tensor \<Rightarrow> error + tensor" where
  "tensor_add = tensor_binop (+)"

subsection \<open>Forward evaluation\<close>

text \<open>
  \<open>nn.Sequential\<close> applies its children in order; child \<open>i\<close> has the name \<open>i\<close>. The
  in-place activations of the source always act on the fresh output of the layer before
  them, never on a tensor that is read again, so they are modelled as functions.
\<close>

fun Sequential_forward ::
  "(path \<Rightarrow> 'l \<Rightarrow> tensor \<Rightarrow> error + tensor) \<Rightarrow> path \<Rightarrow> nat \<Rightarrow> 'l list \<Rightarrow> tensor \<Rightarrow> error + tensor"
where
  "Sequential_forward f p i [] x = Inr x"
| "Sequential_forward f p i (l # ls) x =
     bind_result (f (p @ [Item i]) l x) (Sequential_forward f p (Suc i) ls)"

fun layer_forward :: "substrate \<Rightarrow> path \<Rightarrow> layer \<Rightarrow> tensor \<Rightarrow> error + tensor" where
  "layer_forward P p (LConv2d c) x = Conv2d_forward P p c x"
| "layer_forward P p (LBatchNorm2d b) x = BatchNorm2d_forward P p b x"
| "layer_forward P p (LActivation a) x = Inr (activation_forward a x)"

definition ConvNormActivation_forward ::
  "substrate \<Rightarrow> path \<Rightarrow> ConvNormActivation \<Rightarrow> tensor \<Rightarrow> error + tensor" where
  "ConvNormActivation_forward P p m x = Sequential_forward (layer_forward P) p 0 (layers m) x"

definition SqueezeExcitation_scale ::
  "substrate \<Rightarrow> path \<Rightarrow> SqueezeExcitation \<Rightarrow> tensor \<Rightarrow> error + tensor" where
  "SqueezeExcitation_scale P p m input =
     bind_result (AdaptiveAvgPool2d_forward (avgpool m) input) (\<lambda>scale.
     bind_result (Conv2d_forward P (p @ [Attr ''fc1'']) (fc1 m) scale) (\<lambda>scale.
     let scale = activation_forward (se_activation m) scale in
     bind_result (Conv2d_forward P (p @ [Attr ''fc2'']) (fc2 m) scale) (\<lambda>scale.
     let scale = activation_forward (scale_activation m) scale in
     Inr scale)))"

definition SqueezeExcitation_forward ::
  "substrate \<Rightarrow> path \<Rightarrow> SqueezeExcitation \<Rightarrow> tensor \<Rightarrow> error + tensor" where
  "SqueezeExcitation_forward P p m input =
     bind_result (SqueezeExcitation_scale P p m input) (\<lambda>scale. tensor_mul input scale)"

fun block_layer_forward :: "substrate \<Rightarrow> path \<Rightarrow> block_layer \<Rightarrow> tensor \<Rightarrow> error + tensor" where
  "block_layer_forward P p (BConvNormActivation m) x = ConvNormActivation_forward P p m x"
| "block_layer_forward P p (BSqueezeExcitation m) x = SqueezeExcitation_forward P p m x"

definition InvertedResidual_block ::
  "substrate \<Rightarrow> path \<Rightarrow> InvertedResidual \<Rightarrow> tensor \<Rightarrow> error + tensor" where
  "InvertedResidual_block P p m input =
     Sequential_forward (block_layer_forward P) (p @ [Attr ''block'']) 0 (block m) input"

definition InvertedResidual_forward ::
  "substrate \<Rightarrow> path \<Rightarrow> InvertedResidual \<Rightarrow> tensor \<Rightarrow> error + tensor" where
  "InvertedResidual_forward P p m input =
     bind_result (InvertedResidual_block P p m input) (\<lambda>result.
       if use_res_connect m then tensor_add input result else Inr result)"

fun feature_forward :: "substrate \<Rightarrow> path \<Rightarrow> feature \<Rightarrow> tensor \<Rightarrow> error + tensor" where
  "feature_forward P p (FConvNormActivation m) x = ConvNormActivation_forward P p m x"
| "feature_forward P p (FInvertedResidual m) x = InvertedResidual_forward P p m x"

fun head_layer_forward :: "substrate \<Rightarrow> path \<Rightarrow> head_layer \<Rightarrow> tensor \<Rightarrow> error + tensor" where
  "head_layer_forward P p (HLinear l) x = Linear_forward P p l x"
| "head_layer_forward P p (HActivation a) x = Inr (activation_forward a x)"
| "head_layer_forward P p (HDropout r) x = Dropout_forward P p r x"

definition MobileNetV3Small_forward ::
  "substrate \<Rightarrow> MobileNetV3Small \<Rightarrow> tensor \<Rightarrow> error + tensor" where
  "MobileNetV3Small_forward P m x =
     bind_result (Sequential_forward (feature_forward P) [Attr ''features''] 0 (features m) x)
       (\<lambda>x.
     bind_result (AdaptiveAvgPool2d_forward (net_avgpool m) x) (\<lambda>x.
     bind_result (flatten1 x) (\<lambda>x.
     Sequential_forward (head_layer_forward P) [Attr ''classifier''] 0 (classifier m) x)))"

subsection \<open>State dictionaries and \<open>mobilenet_v3_small\<close>\<close>

text \<open>
  A state dictionary maps the name of a parameter or buffer to its tensor.
  \<open>load_state_dict\<close> (strict, as the source calls it) refuses a dictionary whose names
  are not exactly the module's own or whose tensors differ in shape from the module's,
  and otherwise installs every entry.
\<close>

type_synonym state_dict = "string \<rightharpoonup> tensor"

definition startswith :: "string \<Rightarrow> string \<Rightarrow> bool" where
  "startswith k pre = (take (length pre) k = pre)"

definition load_state_dict :: "state_dict \<Rightarrow> state_dict \<Rightarrow> error + state_dict" where
  "load_state_dict own sd =
     (if dom sd \<noteq> dom own then Inl (RuntimeError ''Missing or unexpected key(s) in state_dict'')
      else if \<exists>k \<in> dom own. map_option shape (sd k) \<noteq> map_option shape (own k)
      then Inl (RuntimeError ''size mismatch'')
      else Inr sd)"

text \<open>The keyword arguments \<open>**kwargs\<close>; an absent keyword is \<open>None\<close>.\<close>

record kwargs =
  kw_num_classes :: "int option"
  kw_width_mult :: "real option"
  kw_dropout :: "real option"
  kw_reduced_tail :: "bool option"
  kw_dilated :: "bool option"
  kw_norm_layer :: "norm_layer option"

definition get_default :: "'a option \<Rightarrow> 'a \<Rightarrow> 'a" where
  "get_default v d = (case v of None \<Rightarrow> d | Some x \<Rightarrow> x)"

text \<open>\<open>MobileNetV3Small(**kwargs)\<close>, with the defaults of the constructor's signature.\<close>

definition MobileNetV3Small_kwargs :: "kwargs \<Rightarrow> error + MobileNetV3Small" where
  "MobileNetV3Small_kwargs kw =
     MobileNetV3Small (get_default (kw_num_classes kw) 1000) (get_default (kw_width_mult kw) 1.0)
       (get_default (kw_dropout kw) 0.2) (get_default (kw_reduced_tail kw) False)
       (get_default (kw_dilated kw) False) (kw_norm_layer kw)"

text \<open>
  \<open>mobilenet_v3_small(pretrained, **kwargs)\<close>. The result is the module together with
  its state dictionary. \<open>initial\<close> is the state dictionary of the freshly constructed
  and initialised module (its values are random draws); \<open>tv_state_dict\<close> is the state
  dictionary of the pretrained source, \<open>tv_mobilenet_v3_small(weights=DEFAULT)\<close>, which
  has 1000 classes.
\<close>

definition mobilenet_v3_small ::
  "bool \<Rightarrow> kwargs \<Rightarrow> state_dict \<Rightarrow> state_dict \<Rightarrow> error + (MobileNetV3Small \<times> state_dict)" where
  "mobilenet_v3_small pretrained kw initial tv_state_dict =
     bind_result (MobileNetV3Small_kwargs kw) (\<lambda>model.
       if pretrained then
         if get_default (kw_num_classes kw) 1000 \<noteq> 1000 then
           let pretrained_state_dict =
                 (\<lambda>k. if \<not> startswith k ''classifier'' then tv_state_dict k else None);
               model_dict = initial;
               model_dict = model_dict ++ pretrained_state_dict
           in bind_result (load_state_dict initial model_dict) (\<lambda>sd. Inr (model, sd))
         else
           bind_result (load_state_dict initial tv_state_dict) (\<lambda>sd. Inr (model, sd))
       else Inr (model, initial))"

subsection \<open>Auxiliary definitions for the proofs\<close>

text \<open>The value of \<open>_make_divisible(v, 8)\<close>, the only way the network calls the quantizer.\<close>

definition channels8 :: "real \<Rightarrow> int" where
  "channels8 v =
     (let new_v = max 8 (py_int (v + 4) div 8 * 8)
      in if real_of_int new_v < 0.9 * v then new_v + 8 else new_v)"

text \<open>
  \<open>maps_shape f s s'\<close>: on every tensor of shape \<open>s\<close> the operation \<open>f\<close> returns, and
  what it returns has shape \<open>s'\<close>.
\<close>

definition maps_shape :: "(tensor \<Rightarrow> error + tensor) \<Rightarrow> int list \<Rightarrow> int list \<Rightarrow> bool" where
  "maps_shape f s s' = (\<forall>x. shape x = s \<longrightarrow> (\<exists>y. f x = Inr y \<and> shape y = s'))"

text \<open>A config whose block can be evaluated: positive channel counts, an odd kernel.\<close>

definition config_ok :: "InvertedResidualConfig \<Rightarrow> bool" where
  "config_ok cnf =
     (0 < input_channels cnf \<and> 0 < expanded_channels cnf \<and> 0 < out_channels cnf \<and>
      odd (kernel cnf) \<and> 0 < kernel cnf \<and> (stride cnf = 1 \<or> stride cnf = 2) \<and>
      0 < dilation cnf)"

text \<open>
  \<open>chain c cs\<close>: the rows \<open>cs\<close> can follow a layer with \<open>c\<close> output channels, each
  row taking what the row before it gives; \<open>chain_out c cs\<close> is what the last row gives.
\<close>

fun chain :: "int \<Rightarrow> InvertedResidualConfig list \<Rightarrow> bool" where
  "chain c [] = True"
| "chain c (cnf # cs) = (input_channels cnf = c \<and> chain (out_channels cnf) cs)"

fun chain_out :: "int \<Rightarrow> InvertedResidualConfig list \<Rightarrow> int" where
  "chain_out c [] = c"
| "chain_out c (cnf # cs) = chain_out (out_channels cnf) cs"

text \<open>The eleven rows of the schedule with their channel counts quantized.\<close>

definition setting_rows :: "real \<Rightarrow> bool \<Rightarrow> bool \<Rightarrow> InvertedResidualConfig list" where
  "setting_rows w rt dl =
     (let row = (\<lambda>ic k ec oc se a s d.
            \<lparr>input_channels = channels8 (real_of_int ic * w), kernel = k,
             expanded_channels = channels8 (real_of_int ec * w),
             out_channels = channels8 (real_of_int oc * w),
             use_se = se, activation = a, stride = s, dilation = d\<rparr>);
          r = (if rt then 2 else 1);
          d = (if dl then 2 else 1)
      in [row 16 3 16 16 True ''RE'' 2 1,
          row 16 3 72 24 False ''RE'' 2 1,
          row 24 3 88 24 False ''RE'' 1 1,
          row 24 5 96 40 True ''HS'' 2 1,
          row 40 5 240 40 True ''HS'' 1 1,
          row 40 5 240 40 True ''HS'' 1 1,
          row 40 5 120 48 True ''HS'' 1 1,
          row 48 5 144 48 True ''HS'' 1 1,
          row 48 5 (288 div r) (96 div r) True ''HS'' 2 d,
          row (96 div r) 5 (576 div r) (96 div r) True ''HS'' 1 d,
          row (96 div r) 5 (576 div r) (96 div r) True ''HS'' 1 d])"

section \<open>Properties of the quantizer\<close>

lemma py_int_nonneg: "0 \<le> x \<Longrightarrow> py_int x = \<lfloor>x\<rfloor>"
  by (simp add: py_int_def)

lemma floor_div_pos: "0 < d \<Longrightarrow> \<lfloor>x\<rfloor> div d = \<lfloor>x / real_of_int d\<rfloor>"
  by (simp add: floor_divide_real_eq_div)



lemma quantized_gt:
  assumes "0 < d"
  shows "x - real_of_int d < real_of_int (\<lfloor>x\<rfloor> div d * d)"
proof -
  have "\<lfloor>x\<rfloor> div d * d = \<lfloor>x\<rfloor> - \<lfloor>x\<rfloor> mod d"
    by (simp add: minus_mod_eq_div_mult)
  moreover have "\<lfloor>x\<rfloor> mod d < d" using assms by simp
  ultimately have "\<lfloor>x\<rfloor> + 1 - d \<le> \<lfloor>x\<rfloor> div d * d" by linarith
  then have "real_of_int (\<lfloor>x\<rfloor> + 1 - d) \<le> real_of_int (\<lfloor>x\<rfloor> div d * d)"
    by (simp only: of_int_le_iff)
  then have "real_of_int \<lfloor>x\<rfloor> + 1 - real_of_int d \<le> real_of_int (\<lfloor>x\<rfloor> div d * d)"
    by simp
  moreover have "x < real_of_int \<lfloor>x\<rfloor> + 1" by linarith
  ultimately show ?thesis by linarith
qed



section \<open>Block descriptors and block construction\<close>

lemma bind_result_Inr [simp]: "bind_result (Inr x) f = f x"
  by (simp add: bind_result_def)

lemma bind_result_Inl [simp]: "bind_result (Inl e) f = Inl e"
  by (simp add: bind_result_def)

lemma make_divisible_8: "make_divisible v 8 None = Inr (channels8 v)"
  by (simp add: make_divisible_def channels8_def Let_def)

lemma adjust_channels_eq: "adjust_channels c w = Inr (channels8 (real_of_int c * w))"
  by (simp add: adjust_channels_def make_divisible_8)

lemma channels8_ge: "8 \<le> channels8 v"
proof -
  define m where "m = max 8 (py_int (v + 4) div 8 * 8)"
  have "8 \<le> m" unfolding m_def by simp
  moreover have "channels8 v = (if real_of_int m < 0.9 * v then m + 8 else m)"
    by (simp add: channels8_def Let_def m_def)
  ultimately show ?thesis by simp
qed

lemma config_eq:
  "InvertedResidualConfig ic k ec oc se a s d w =
     Inr \<lparr>input_channels = channels8 (real_of_int ic * w), kernel = k,
          expanded_channels = channels8 (real_of_int ec * w),
          out_channels = channels8 (real_of_int oc * w),
          use_se = se, activation = a, stride = s, dilation = d\<rparr>"
  by (simp add: InvertedResidualConfig_def adjust_channels_eq)

lemma stride_range: "(1 \<le> s \<and> s \<le> (2::int)) = (s = 1 \<or> s = 2)"
  by auto






section \<open>Shapes through the layers\<close>

lemma maps_shapeI: "(\<And>x. shape x = s \<Longrightarrow> \<exists>y. f x = Inr y \<and> shape y = s') \<Longrightarrow> maps_shape f s s'"
  by (simp add: maps_shape_def)

lemma maps_shapeD: "maps_shape f s s' \<Longrightarrow> shape x = s \<Longrightarrow> \<exists>y. f x = Inr y \<and> shape y = s'"
  by (simp add: maps_shape_def)

lemma maps_shape_bind:
  assumes "maps_shape f s s'" and "maps_shape g s' s''"
  shows "maps_shape (\<lambda>x. bind_result (f x) g) s s''"
proof (rule maps_shapeI)
  fix x :: tensor assume "shape x = s"
  with assms(1) obtain y where "f x = Inr y" "shape y = s'" by (auto dest: maps_shapeD)
  with assms(2) show "\<exists>z. bind_result (f x) g = Inr z \<and> shape z = s''"
    by (auto dest: maps_shapeD)
qed

lemma Sequential_forward_append:
  "Sequential_forward f p i (xs @ ys) x =
     bind_result (Sequential_forward f p i xs x) (Sequential_forward f p (i + length xs) ys)"
proof (induction xs arbitrary: i x)
  case Nil
  show ?case by simp
next
  case (Cons a xs)
  show ?case
    by (cases "f (p @ [Item i]) a x") (simp_all add: Cons.IH)
qed

lemma odd_kernel_size:
  assumes "odd k" 
  shows "n + 2 * ((k - 1) div 2 * d) - d * (k - 1) - 1 = n - (1::int)"
proof -
  from assms obtain j where "k = 2 * j + 1" by (auto elim: oddE)
  then show ?thesis by (simp add: algebra_simps)
qed

lemma Conv2d_forward_shape:
  assumes "conv_args_ok c" and "odd (conv_kernel_size c)"
    and "conv_padding c = (conv_kernel_size c - 1) div 2 * conv_dilation c"
    and "1 \<le> H" and "1 \<le> W" and "cin = conv_in_channels c"
  shows "maps_shape (Conv2d_forward P p c) [B, cin, H, W]
           [B, conv_out_channels c, (H - 1) div conv_stride c + 1, (W - 1) div conv_stride c + 1]"
proof (rule maps_shapeI)
  fix x :: tensor assume x: "shape x = [B, cin, H, W]"
  have h: "H + 2 * conv_padding c - conv_dilation c * (conv_kernel_size c - 1) - 1 = H - 1"
    and w: "W + 2 * conv_padding c - conv_dilation c * (conv_kernel_size c - 1) - 1 = W - 1"
    using assms(2,3) by (simp_all add: odd_kernel_size)
  have "\<not> (H + 2 * conv_padding c < conv_dilation c * (conv_kernel_size c - 1) + 1)"
    using h assms(4) by linarith
  moreover have "\<not> (W + 2 * conv_padding c < conv_dilation c * (conv_kernel_size c - 1) + 1)"
    using w assms(5) by linarith
  ultimately show "\<exists>y. Conv2d_forward P p c x = Inr y \<and> shape y =
      [B, conv_out_channels c, (H - 1) div conv_stride c + 1, (W - 1) div conv_stride c + 1]"
    using assms(1,6) x h w by (simp add: Conv2d_forward_def conv_out_size_def)
qed

lemma BatchNorm2d_forward_shape:
  assumes "num_features b = C"
  shows "maps_shape (BatchNorm2d_forward P p b) [B, C, H, W] [B, C, H, W]"
  using assms by (simp add: maps_shape_def BatchNorm2d_forward_def)

lemma activation_forward_shape: "maps_shape (\<lambda>x. Inr (activation_forward a x)) s s"
  by (simp add: maps_shape_def activation_forward_def)

lemma padding_nonneg: "0 < k \<Longrightarrow> 0 < d \<Longrightarrow> 0 \<le> (k - 1) div 2 * (d::int)"
  by (simp add: pos_imp_zdiv_nonneg_iff)

lemma ConvNormActivation_forward_shape:
  assumes nf: "num_features (nl cout) = cout"
    and args: "0 < g" "cin mod g = 0" "cout mod g = 0" "0 < cin" "0 < cout"
      "odd k" "0 < k" "0 < s" "0 < d"
    and size: "1 \<le> H" "1 \<le> W"
  shows "maps_shape
           (ConvNormActivation_forward P p (ConvNormActivation cin cout k s None g (Some nl) act d None))
           [B, cin, H, W] [B, cout, (H - 1) div s + 1, (W - 1) div s + 1]"
proof (rule maps_shapeI)
  fix x :: tensor assume x: "shape x = [B, cin, H, W]"
  define c where "c = \<lparr>conv_in_channels = cin, conv_out_channels = cout, conv_kernel_size = k,
    conv_stride = s, conv_padding = (k - 1) div 2 * d, conv_dilation = d, conv_groups = g,
    conv_bias = False\<rparr>"
  let ?s' = "[B, cout, (H - 1) div s + 1, (W - 1) div s + 1]"
  have ok: "conv_args_ok c"
    using args by (simp add: conv_args_ok_def c_def padding_nonneg)
  have "maps_shape (Conv2d_forward P (p @ [Item 0]) c) [B, cin, H, W]
          [B, conv_out_channels c, (H - 1) div conv_stride c + 1, (W - 1) div conv_stride c + 1]"
    using ok size args(6) by (intro Conv2d_forward_shape) (simp_all add: c_def)
  with x obtain y1 where y1: "Conv2d_forward P (p @ [Item 0]) c x = Inr y1" "shape y1 = ?s'"
    by (auto dest!: maps_shapeD simp: c_def)
  from maps_shapeD [OF BatchNorm2d_forward_shape [OF nf] y1(2)]
  obtain y2 where y2: "BatchNorm2d_forward P (p @ [Item (Suc 0)]) (nl cout) y1 = Inr y2" "shape y2 = ?s'"
    by blast
  show "\<exists>y. ConvNormActivation_forward P p
          (ConvNormActivation cin cout k s None g (Some nl) act d None) x = Inr y \<and> shape y = ?s'"
    using y1 y2
    by (cases act)
       (simp_all add: ConvNormActivation_forward_def ConvNormActivation_def Let_def c_def
          activation_forward_def)
qed

lemma apply_Hardsigmoid_range: "0 \<le> apply_activation Hardsigmoid v \<and> apply_activation Hardsigmoid v \<le> 1"
  by (simp add: apply_activation_def)

lemma pointwise_conv_shape:
  assumes "0 < a" and "0 < b"
  shows "maps_shape
           (Conv2d_forward P p \<lparr>conv_in_channels = a, conv_out_channels = b, conv_kernel_size = 1,
              conv_stride = 1, conv_padding = 0, conv_dilation = 1, conv_groups = 1,
              conv_bias = True\<rparr>)
           [B, a, 1, 1] [B, b, 1, 1]"
  using assms
  by (simp add: maps_shape_def Conv2d_forward_def conv_args_ok_def conv_out_size_def)

lemma AdaptiveAvgPool2d_forward_shape:
  assumes "0 < C" and "1 \<le> H" and "1 \<le> W"
  shows "maps_shape (AdaptiveAvgPool2d_forward (AdaptiveAvgPool2d 1)) [B, C, H, W] [B, C, 1, 1]"
  using assms by (simp add: maps_shape_def AdaptiveAvgPool2d_forward_def)

lemma SqueezeExcitation_scale_shape:
  assumes "0 < C" and "0 < sq" and "1 \<le> H" and "1 \<le> W"
  shows "maps_shape (SqueezeExcitation_scale P p (SqueezeExcitation C sq a1 a2))
           [B, C, H, W] [B, C, 1, 1]"
proof (rule maps_shapeI)
  fix x :: tensor assume x: "shape x = [B, C, H, W]"
  let ?m = "SqueezeExcitation C sq a1 a2"
  from maps_shapeD [OF AdaptiveAvgPool2d_forward_shape [OF assms(1,3,4)] x]
  obtain y1 where y1: "AdaptiveAvgPool2d_forward (AdaptiveAvgPool2d 1) x = Inr y1"
    "shape y1 = [B, C, 1, 1]" by blast
  from maps_shapeD [OF pointwise_conv_shape [OF assms(1,2)] y1(2)]
  obtain y2 where y2: "Conv2d_forward P (p @ [Attr ''fc1'']) (fc1 ?m) y1 = Inr y2"
    "shape y2 = [B, sq, 1, 1]" by (auto simp: SqueezeExcitation_def)
  have "shape (activation_forward a1 y2) = [B, sq, 1, 1]"
    using y2(2) by (simp add: activation_forward_def)
  from maps_shapeD [OF pointwise_conv_shape [OF assms(2,1)] this]
  obtain y3 where y3: "Conv2d_forward P (p @ [Attr ''fc2'']) (fc2 ?m) (activation_forward a1 y2) = Inr y3"
    "shape y3 = [B, C, 1, 1]" by (auto simp: SqueezeExcitation_def)
  have av: "avgpool ?m = AdaptiveAvgPool2d 1" "se_activation ?m = a1" "scale_activation ?m = a2"
    by (simp_all add: SqueezeExcitation_def)
  show "\<exists>y. SqueezeExcitation_scale P p ?m x = Inr y \<and> shape y = [B, C, 1, 1]"
    using y1 y2 y3
    by (simp add: SqueezeExcitation_scale_def av Let_def activation_forward_def)
qed

lemma broadcast_spatial: "broadcast_shapes [B, C, H, W] [B, C, 1, 1] = Inr [B, C, H, W]"
  by (simp add: broadcast_shapes_def)

lemma broadcast_index_valid:
  assumes "valid_index s i" shows "broadcast_index s i = i"
proof -
  have "list_all2 (\<lambda>n d. int n < d) i s" using assms by (simp add: valid_index_def)
  then have "map2 (\<lambda>d n. if d = 1 then 0 else n) s i = i"
    by (induction rule: list_all2_induct) auto
  moreover have "length i = length s" using assms by (simp add: valid_index_def list_all2_lengthD)
  ultimately show ?thesis by (simp add: broadcast_index_def)
qed

lemma broadcast_index_spatial:
  assumes "valid_index [B, C, H, W] [b, c, h, w]"
  shows "broadcast_index [B, C, 1, 1] [b, c, h, w] = [b, c, 0, 0]"
  using assms by (auto simp add: broadcast_index_def valid_index_def)

lemma SqueezeExcitation_forward_shape:
  assumes "0 < C" and "0 < sq" and "1 \<le> H" and "1 \<le> W"
  shows "maps_shape (SqueezeExcitation_forward P p (SqueezeExcitation C sq a1 a2))
           [B, C, H, W] [B, C, H, W]"
proof (rule maps_shapeI)
  fix x :: tensor assume x: "shape x = [B, C, H, W]"
  from maps_shapeD [OF SqueezeExcitation_scale_shape [OF assms] x]
  obtain s where s: "SqueezeExcitation_scale P p (SqueezeExcitation C sq a1 a2) x = Inr s"
    "shape s = [B, C, 1, 1]" by blast
  then show "\<exists>y. SqueezeExcitation_forward P p (SqueezeExcitation C sq a1 a2) x = Inr y
      \<and> shape y = [B, C, H, W]"
    using x by (simp add: SqueezeExcitation_forward_def tensor_mul_def tensor_binop_def
      broadcast_spatial)
qed

lemma bind_result_Inr_right [simp]: "bind_result r Inr = r"
  by (cases r) simp_all

lemma Sequential_nil_shape: "maps_shape (Sequential_forward f p i []) s s"
  by (simp add: maps_shape_def)

lemma Sequential_single_shape:
  "maps_shape (f (p @ [Item i]) l) s s' \<Longrightarrow> maps_shape (Sequential_forward f p i [l]) s s'"
  by (auto simp add: maps_shape_def)

lemma Sequential_append_shape:
  assumes "maps_shape (Sequential_forward f p i xs) s s'"
    and "maps_shape (Sequential_forward f p (i + length xs) ys) s' s''"
  shows "maps_shape (Sequential_forward f p i (xs @ ys)) s s''"
  using maps_shape_bind [OF assms] by (simp add: Sequential_forward_append [abs_def])

lemma Sequential_cons_shape:
  assumes "maps_shape (f (p @ [Item i]) l) s s'"
    and "maps_shape (Sequential_forward f p (Suc i) ls) s' s''"
  shows "maps_shape (Sequential_forward f p i (l # ls)) s s''"
proof (rule maps_shapeI)
  fix x :: tensor assume "shape x = s"
  with assms(1) obtain y where "f (p @ [Item i]) l x = Inr y" "shape y = s'"
    by (auto dest: maps_shapeD)
  with assms(2) show "\<exists>z. Sequential_forward f p i (l # ls) x = Inr z \<and> shape z = s''"
    by (auto dest: maps_shapeD)
qed

lemma Sequential_nil_eq: "Sequential_forward f p i [] = Inr"
  by (rule ext) simp

lemma block_single_CNA:
  "maps_shape (ConvNormActivation_forward P (q @ [Item i]) c) s s' \<Longrightarrow>
   maps_shape (Sequential_forward (block_layer_forward P) q i [BConvNormActivation c]) s s'"
  unfolding maps_shape_def by (simp add: Sequential_nil_eq)

lemma block_single_SE:
  "maps_shape (SqueezeExcitation_forward P (q @ [Item i]) c) s s' \<Longrightarrow>
   maps_shape (Sequential_forward (block_layer_forward P) q i [BSqueezeExcitation c]) s s'"
  unfolding maps_shape_def by (simp add: Sequential_nil_eq)

lemma InvertedResidual_eq:
  assumes "stride cnf = 1 \<or> stride cnf = 2"
  shows "InvertedResidual cnf nl sl =
     Inr \<lparr>use_res_connect = (stride cnf = 1 \<and> input_channels cnf = out_channels cnf),
          block =
            (if expanded_channels cnf \<noteq> input_channels cnf
             then [BConvNormActivation
                     (ConvNormActivation (input_channels cnf) (expanded_channels cnf) 1 1 None 1
                        (Some nl) (Some (if activation cnf = ''HS'' then Hardswish else ReLU)) 1 None)]
             else [])
            @ [BConvNormActivation
                 (ConvNormActivation (expanded_channels cnf) (expanded_channels cnf) (kernel cnf)
                    (stride cnf) None (expanded_channels cnf) (Some nl)
                    (Some (if activation cnf = ''HS'' then Hardswish else ReLU)) (dilation cnf) None)]
            @ (if use_se cnf
               then [BSqueezeExcitation
                       (sl (expanded_channels cnf)
                          (channels8 (real_of_int (expanded_channels cnf div 4))) ReLU)]
               else [])
            @ [BConvNormActivation
                 (ConvNormActivation (expanded_channels cnf) (out_channels cnf) 1 1 None 1
                    (Some nl) None 1 None)],
          ir_out_channels = out_channels cnf,
          is_strided = (stride cnf > 1)\<rparr>"
  using assms
  by (auto simp add: InvertedResidual_def Let_def make_divisible_8 simp del: One_nat_def)

lemma out_size_ge: "1 \<le> H \<Longrightarrow> 0 < s \<Longrightarrow> 1 \<le> (H - 1) div s + (1::int)"
  by (simp add: pos_imp_zdiv_nonneg_iff)

lemma InvertedResidual_block_shape:
  assumes ok: "config_ok cnf" and nf: "\<And>c. num_features (nl c) = c"
    and m: "InvertedResidual cnf nl se_layer_default = Inr m"
    and size: "1 \<le> H" "1 \<le> W"
  shows "maps_shape (InvertedResidual_block P p m) [B, input_channels cnf, H, W]
           [B, out_channels cnf, (H - 1) div stride cnf + 1, (W - 1) div stride cnf + 1]"
proof -
  let ?ic = "input_channels cnf" and ?ec = "expanded_channels cnf" and ?oc = "out_channels cnf"
  let ?H' = "(H - 1) div stride cnf + 1" and ?W' = "(W - 1) div stride cnf + 1"
  define act where "act = (if activation cnf = ''HS'' then Hardswish else ReLU)"
  define q where "q = p @ [Attr ''block'']"
  let ?f = "block_layer_forward P"
  let ?expand = "if ?ec \<noteq> ?ic
             then [BConvNormActivation
                     (ConvNormActivation ?ic ?ec 1 1 None 1 (Some nl) (Some act) 1 None)]
             else []"
  let ?depthwise = "[BConvNormActivation
                 (ConvNormActivation ?ec ?ec (kernel cnf) (stride cnf) None ?ec (Some nl)
                    (Some act) (dilation cnf) None)]"
  let ?se = "if use_se cnf
               then [BSqueezeExcitation
                       (se_layer_default ?ec (channels8 (real_of_int (?ec div 4))) ReLU)]
               else []"
  let ?project = "[BConvNormActivation
                 (ConvNormActivation ?ec ?oc 1 1 None 1 (Some nl) None 1 None)]"
  from ok have pos: "0 < ?ic" "0 < ?ec" "0 < ?oc" and k: "odd (kernel cnf)" "0 < kernel cnf"
    and st: "stride cnf = 1 \<or> stride cnf = 2" and d: "0 < dilation cnf"
    by (simp_all add: config_ok_def)
  from st have st0: "0 < stride cnf" by auto
  have size': "1 \<le> ?H'" "1 \<le> ?W'" using out_size_ge [OF size(1) st0] out_size_ge [OF size(2) st0] by simp_all
  have blk: "block m = ?expand @ ?depthwise @ ?se @ ?project"
    using m InvertedResidual_eq [OF st, of nl se_layer_default] by (auto simp add: act_def)
  have A: "maps_shape (Sequential_forward ?f q i ?expand) [B, ?ic, H, W] [B, ?ec, H, W]" for i
  proof (cases "?ec \<noteq> ?ic")
    case True
    have "maps_shape (ConvNormActivation_forward P (q @ [Item i])
            (ConvNormActivation ?ic ?ec 1 1 None 1 (Some nl) (Some act) 1 None))
            [B, ?ic, H, W] [B, ?ec, (H - 1) div 1 + 1, (W - 1) div 1 + 1]"
      using pos size nf by (intro ConvNormActivation_forward_shape) simp_all
    then show ?thesis using True by (simp add: block_single_CNA)
  next
    case False
    then show ?thesis by (simp add: Sequential_nil_shape)
  qed
  have Bd: "maps_shape (Sequential_forward ?f q i ?depthwise) [B, ?ec, H, W] [B, ?ec, ?H', ?W']" for i
  proof -
    have "maps_shape (ConvNormActivation_forward P (q @ [Item i])
            (ConvNormActivation ?ec ?ec (kernel cnf) (stride cnf) None ?ec (Some nl) (Some act)
               (dilation cnf) None))
            [B, ?ec, H, W] [B, ?ec, ?H', ?W']"
      using pos size nf k st0 d by (intro ConvNormActivation_forward_shape) simp_all
    then show ?thesis by (simp add: block_single_CNA)
  qed
  have C: "maps_shape (Sequential_forward ?f q i ?se) [B, ?ec, ?H', ?W'] [B, ?ec, ?H', ?W']" for i
  proof (cases "use_se cnf")
    case True
    have "0 < channels8 (real_of_int (?ec div 4))"
      using channels8_ge [of "real_of_int (?ec div 4)"] by linarith
    then have "maps_shape (SqueezeExcitation_forward P (q @ [Item i])
            (SqueezeExcitation ?ec (channels8 (real_of_int (?ec div 4))) ReLU Hardsigmoid))
            [B, ?ec, ?H', ?W'] [B, ?ec, ?H', ?W']"
      using pos size' by (intro SqueezeExcitation_forward_shape)
    then show ?thesis using True by (simp add: block_single_SE se_layer_default_def)
  next
    case False
    then show ?thesis by (simp add: Sequential_nil_shape)
  qed
  have D: "maps_shape (Sequential_forward ?f q i ?project) [B, ?ec, ?H', ?W'] [B, ?oc, ?H', ?W']" for i
  proof -
    have "maps_shape (ConvNormActivation_forward P (q @ [Item i])
            (ConvNormActivation ?ec ?oc 1 1 None 1 (Some nl) None 1 None))
            [B, ?ec, ?H', ?W'] [B, ?oc, (?H' - 1) div 1 + 1, (?W' - 1) div 1 + 1]"
      using pos size' nf by (intro ConvNormActivation_forward_shape) simp_all
    then show ?thesis by (simp add: block_single_CNA)
  qed
  have CD: "maps_shape (Sequential_forward ?f q i (?se @ ?project))
      [B, ?ec, ?H', ?W'] [B, ?oc, ?H', ?W']" for i
    by (rule Sequential_append_shape [OF C D])
  have BCD: "maps_shape (Sequential_forward ?f q i (?depthwise @ ?se @ ?project))
      [B, ?ec, H, W] [B, ?oc, ?H', ?W']" for i
    by (rule Sequential_append_shape [OF Bd CD])
  have "maps_shape (Sequential_forward ?f q 0 (?expand @ ?depthwise @ ?se @ ?project))
      [B, ?ic, H, W] [B, ?oc, ?H', ?W']"
    by (rule Sequential_append_shape [OF A BCD])
  then show ?thesis
    unfolding InvertedResidual_block_def blk q_def [symmetric] .
qed

lemma broadcast_rev_same: "broadcast_rev s s = Inr s"
  by (induction s) simp_all

lemma broadcast_shapes_same: "broadcast_shapes s s = Inr s"
  by (simp add: broadcast_shapes_def broadcast_rev_same)

lemma InvertedResidual_forward_shape:
  assumes ok: "config_ok cnf" and nf: "\<And>c. num_features (nl c) = c"
    and m: "InvertedResidual cnf nl se_layer_default = Inr m"
    and size: "1 \<le> H" "1 \<le> W"
  shows "maps_shape (InvertedResidual_forward P p m) [B, input_channels cnf, H, W]
           [B, out_channels cnf, (H - 1) div stride cnf + 1, (W - 1) div stride cnf + 1]"
proof (rule maps_shapeI)
  fix x :: tensor assume x: "shape x = [B, input_channels cnf, H, W]"
  let ?s' = "[B, out_channels cnf, (H - 1) div stride cnf + 1, (W - 1) div stride cnf + 1]"
  from maps_shapeD [OF InvertedResidual_block_shape [OF ok nf m size] x]
  obtain r where r: "InvertedResidual_block P p m x = Inr r" "shape r = ?s'" by blast
  from ok have st: "stride cnf = 1 \<or> stride cnf = 2" by (simp add: config_ok_def)
  have flag: "use_res_connect m = (stride cnf = 1 \<and> input_channels cnf = out_channels cnf)"
    using m InvertedResidual_eq [OF st, of nl se_layer_default] by auto
  show "\<exists>y. InvertedResidual_forward P p m x = Inr y \<and> shape y = ?s'"
  proof (cases "use_res_connect m")
    case True
    with flag have "shape r = shape x" using r(2) x by simp
    then show ?thesis
      using True r x
      by (simp add: InvertedResidual_forward_def tensor_add_def tensor_binop_def
          broadcast_shapes_same)
  next
    case False
    then show ?thesis using r by (simp add: InvertedResidual_forward_def)
  qed
qed

section \<open>The assembled network\<close>

lemma inverted_residual_setting_eq:
  "inverted_residual_setting w rt dl = Inr (setting_rows w rt dl)"
  by (simp add: inverted_residual_setting_def setting_rows_def Let_def config_eq)

lemma channels8_pos [simp]: "0 < channels8 v"
  using channels8_ge [of v] by linarith

lemma setting_rows_ok: "list_all config_ok (setting_rows w rt dl)"
  by (simp add: setting_rows_def Let_def config_ok_def)

lemma setting_rows_chain: "chain (channels8 (16 * w)) (setting_rows w rt dl)"
  by (simp add: setting_rows_def Let_def)

lemma setting_rows_chain_out:
  "chain_out c (setting_rows w rt dl) = channels8 (real_of_int (96 div (if rt then 2 else 1)) * w)"
  by (simp add: setting_rows_def Let_def)

lemma collect_Cons_Inr:
  "collect (r # rs) = Inr ys \<longleftrightarrow> (\<exists>x xs. r = Inr x \<and> collect rs = Inr xs \<and> ys = x # xs)"
  by (cases r; cases "collect rs") auto

lemma collect_blocks_total:
  assumes "list_all config_ok cs"
  shows "\<exists>blocks. collect (map (\<lambda>cnf. InvertedResidual cnf nl sl) cs) = Inr blocks"
  using assms
proof (induction cs)
  case Nil
  show ?case by simp
next
  case (Cons cnf cs)
  then obtain blocks where "collect (map (\<lambda>cnf. InvertedResidual cnf nl sl) cs) = Inr blocks"
    by auto
  moreover from Cons.prems have "stride cnf = 1 \<or> stride cnf = 2" by (simp add: config_ok_def)
  then have "\<exists>m. InvertedResidual cnf nl sl = Inr m" 
    using InvertedResidual_eq [of cnf nl sl] by simp
  ultimately show ?case by auto
qed

lemma blocks_forward_shape:
  assumes nf: "\<And>c. num_features (nl c) = c"
    and "list_all config_ok cs" and "chain cin cs"
    and "collect (map (\<lambda>cnf. InvertedResidual cnf nl se_layer_default) cs) = Inr blocks"
    and "1 \<le> H" and "1 \<le> W"
  shows "\<exists>H' W'. 1 \<le> H' \<and> 1 \<le> W' \<and>
           maps_shape (Sequential_forward (feature_forward P) p i (map FInvertedResidual blocks))
             [B, cin, H, W] [B, chain_out cin cs, H', W']"
  using assms(2-)
proof (induction cs arbitrary: cin blocks H W i)
  case Nil
  then have "blocks = []" by simp
  moreover have "maps_shape Inr [B, cin, H, W] [B, cin, H, W]"
    by (simp add: maps_shape_def)
  ultimately show ?case using Nil.prems(4,5) by (auto simp add: Sequential_nil_eq)
next
  case (Cons cnf cs)
  from Cons.prems(3) obtain m ms where m: "InvertedResidual cnf nl se_layer_default = Inr m"
    and ms: "collect (map (\<lambda>cnf. InvertedResidual cnf nl se_layer_default) cs) = Inr ms"
    and blocks: "blocks = m # ms"
    by (auto simp add: collect_Cons_Inr simp del: collect.simps(2))
  from Cons.prems(1) have ok: "config_ok cnf" and oks: "list_all config_ok cs" by simp_all
  from Cons.prems(2) have cin: "input_channels cnf = cin" and ch: "chain (out_channels cnf) cs"
    by simp_all
  from ok have st: "0 < stride cnf" by (auto simp add: config_ok_def)
  let ?H1 = "(H - 1) div stride cnf + 1" and ?W1 = "(W - 1) div stride cnf + 1"
  have size1: "1 \<le> ?H1" "1 \<le> ?W1"
    using out_size_ge [OF Cons.prems(4) st] out_size_ge [OF Cons.prems(5) st] by simp_all
  have step: "maps_shape (feature_forward P (p @ [Item i]) (FInvertedResidual m))
      [B, cin, H, W] [B, out_channels cnf, ?H1, ?W1]"
    using InvertedResidual_forward_shape [OF ok nf m Cons.prems(4,5), of P "p @ [Item i]" B]
    by (simp add: maps_shape_def cin)
  from Cons.IH [OF oks ch ms size1, of "Suc i"]
  obtain H' W' where hw: "1 \<le> H'" "1 \<le> W'"
    and rest: "maps_shape (Sequential_forward (feature_forward P) p (Suc i) (map FInvertedResidual ms))
      [B, out_channels cnf, ?H1, ?W1] [B, chain_out (out_channels cnf) cs, H', W']"
    by blast
  have "maps_shape (Sequential_forward (feature_forward P) p i (map FInvertedResidual blocks))
      [B, cin, H, W] [B, chain_out cin (cnf # cs), H', W']"
    unfolding blocks using Sequential_cons_shape [OF step rest] by simp
  with hw show ?case by blast
qed

lemma setting_rows_first:
  "\<exists>c. first_item (setting_rows w rt dl) = Inr c \<and> input_channels c = channels8 (16 * w)"
  by (simp add: setting_rows_def Let_def first_item_def)

lemma setting_rows_last:
  "\<exists>c. last_item (setting_rows w rt dl) = Inr c
       \<and> out_channels c = channels8 (real_of_int (96 div (if rt then 2 else 1)) * w)"
  by (simp add: setting_rows_def Let_def last_item_def)

lemma MobileNetV3Small_eq:
  assumes "nl = (case nlo of None \<Rightarrow> norm_layer_default | Some f \<Rightarrow> f)"
    and "collect (map (\<lambda>cnf. InvertedResidual cnf nl se_layer_default) (setting_rows w rt dl))
           = Inr blocks"
  shows "MobileNetV3Small nc w p rt dl nlo =
     Inr \<lparr>features =
            [FConvNormActivation
               (ConvNormActivation 3 (channels8 (16 * w)) 3 2 None 1 (Some nl) (Some Hardswish) 1 None)]
            @ map FInvertedResidual blocks
            @ [FConvNormActivation
                 (ConvNormActivation (channels8 (real_of_int (96 div (if rt then 2 else 1)) * w))
                    (channels8 (576 * w)) 1 1 None 1 (Some nl) (Some Hardswish) 1 None)],
          net_avgpool = AdaptiveAvgPool2d 1,
          classifier =
            [HLinear \<lparr>in_features = channels8 (576 * w),
                      out_features = channels8 (real_of_int (1024 div (if rt then 2 else 1)) * w)\<rparr>,
             HActivation Hardswish,
             HDropout p,
             HLinear \<lparr>in_features = channels8 (real_of_int (1024 div (if rt then 2 else 1)) * w),
                      out_features = nc\<rparr>]\<rparr>"
proof -
  obtain c0 where c0: "first_item (setting_rows w rt dl) = Inr c0"
    "input_channels c0 = channels8 (16 * w)"
    using setting_rows_first by blast
  obtain c1 where c1: "last_item (setting_rows w rt dl) = Inr c1"
    "out_channels c1 = channels8 (real_of_int (96 div (if rt then 2 else 1)) * w)"
    using setting_rows_last by blast
  show ?thesis
    using assms(2) c0 c1
    by (simp add: MobileNetV3Small_def Let_def inverted_residual_setting_eq make_divisible_8
        assms(1) [symmetric])
qed

lemma flatten1_pooled_shape: "maps_shape flatten1 [B, C, 1, 1] [B, C]"
  by (simp add: maps_shape_def flatten1_def)

lemma Linear_forward_shape:
  assumes "in_features l = a" and "0 \<le> out_features l"
  shows "maps_shape (Linear_forward P p l) [B, a] [B, out_features l]"
  using assms by (simp add: maps_shape_def Linear_forward_def)

lemma classifier_forward_shape:
  assumes "0 \<le> nc"
  shows "maps_shape
           (Sequential_forward (head_layer_forward P) q 0
              [HLinear \<lparr>in_features = a, out_features = channels8 v\<rparr>,
               HActivation Hardswish,
               HDropout p,
               HLinear \<lparr>in_features = channels8 v, out_features = nc\<rparr>])
           [B, a] [B, nc]"
proof (rule maps_shapeI)
  fix x :: tensor assume x: "shape x = [B, a]"
  have "0 \<le> channels8 v" using channels8_ge [of v] by linarith
  then show "\<exists>y. Sequential_forward (head_layer_forward P) q 0
              [HLinear \<lparr>in_features = a, out_features = channels8 v\<rparr>,
               HActivation Hardswish,
               HDropout p,
               HLinear \<lparr>in_features = channels8 v, out_features = nc\<rparr>] x = Inr y
            \<and> shape y = [B, nc]"
    using x assms
    by (simp add: Linear_forward_def activation_forward_def Dropout_forward_def)
qed

lemma feature_single_CNA:
  "maps_shape (ConvNormActivation_forward P (q @ [Item i]) c) s s' \<Longrightarrow>
   maps_shape (Sequential_forward (feature_forward P) q i [FConvNormActivation c]) s s'"
  unfolding maps_shape_def by (simp add: Sequential_nil_eq)

lemma norm_layer_default_features: "num_features (norm_layer_default c) = c"
  by (simp add: norm_layer_default_def)

lemma MobileNetV3Small_forward_total:
  assumes nc: "0 \<le> nc" and x: "shape x = [B, 3, H, W]" and size: "1 \<le> H" "1 \<le> W"
  shows "\<exists>net y. MobileNetV3Small nc w p rt dl None = Inr net
           \<and> MobileNetV3Small_forward P net x = Inr y \<and> shape y = [B, nc]"
proof -
  let ?nl = norm_layer_default
  let ?rows = "setting_rows w rt dl"
  let ?c_last = "channels8 (real_of_int (96 div (if rt then 2 else 1)) * w)"
  let ?stem = "ConvNormActivation 3 (channels8 (16 * w)) 3 2 None 1 (Some ?nl) (Some Hardswish) 1 None"
  let ?tail = "ConvNormActivation ?c_last (channels8 (576 * w)) 1 1 None 1 (Some ?nl)
      (Some Hardswish) 1 None"
  let ?f = "feature_forward P"
  define q where "q = [Attr ''features'']"
  obtain blocks where blocks:
    "collect (map (\<lambda>cnf. InvertedResidual cnf ?nl se_layer_default) ?rows) = Inr blocks"
    using collect_blocks_total [OF setting_rows_ok] by blast
  define net where "net = \<lparr>features = [FConvNormActivation ?stem] @ map FInvertedResidual blocks
            @ [FConvNormActivation ?tail],
          net_avgpool = AdaptiveAvgPool2d 1,
          classifier =
            [HLinear \<lparr>in_features = channels8 (576 * w),
                      out_features = channels8 (real_of_int (1024 div (if rt then 2 else 1)) * w)\<rparr>,
             HActivation Hardswish,
             HDropout p,
             HLinear \<lparr>in_features = channels8 (real_of_int (1024 div (if rt then 2 else 1)) * w),
                      out_features = nc\<rparr>]\<rparr>"
  have net: "MobileNetV3Small nc w p rt dl None = Inr net"
    unfolding net_def by (rule MobileNetV3Small_eq [OF _ blocks]) simp
  let ?H1 = "(H - 1) div 2 + 1" and ?W1 = "(W - 1) div 2 + 1"
  have size1: "1 \<le> ?H1" "1 \<le> ?W1" using size by simp_all
  have "maps_shape (ConvNormActivation_forward P (q @ [Item 0]) ?stem)
      [B, 3, H, W] [B, channels8 (16 * w), ?H1, ?W1]"
    using size by (intro ConvNormActivation_forward_shape) (simp_all add: norm_layer_default_features)
  then have S: "maps_shape (Sequential_forward ?f q 0 [FConvNormActivation ?stem])
      [B, 3, H, W] [B, channels8 (16 * w), ?H1, ?W1]"
    by (rule feature_single_CNA)
  from blocks_forward_shape [of ?nl ?rows "channels8 (16 * w)" blocks ?H1 ?W1 P q "Suc 0" B,
      OF norm_layer_default_features setting_rows_ok setting_rows_chain blocks size1]
  obtain H' W' where hw: "1 \<le> H'" "1 \<le> W'"
    and M: "maps_shape (Sequential_forward ?f q (Suc 0) (map FInvertedResidual blocks))
      [B, channels8 (16 * w), ?H1, ?W1] [B, ?c_last, H', W']"
    by (auto simp add: setting_rows_chain_out)
  have "maps_shape (ConvNormActivation_forward P (q @ [Item i]) ?tail)
      [B, ?c_last, H', W'] [B, channels8 (576 * w), (H' - 1) div 1 + 1, (W' - 1) div 1 + 1]" for i
    using hw by (intro ConvNormActivation_forward_shape) (simp_all add: norm_layer_default_features)
  then have "maps_shape (ConvNormActivation_forward P (q @ [Item i]) ?tail)
      [B, ?c_last, H', W'] [B, channels8 (576 * w), H', W']" for i
    by simp
  then have T: "maps_shape (Sequential_forward ?f q i [FConvNormActivation ?tail])
      [B, ?c_last, H', W'] [B, channels8 (576 * w), H', W']" for i
    by (rule feature_single_CNA)
  have MT: "maps_shape (Sequential_forward ?f q (Suc 0) (map FInvertedResidual blocks
        @ [FConvNormActivation ?tail]))
      [B, channels8 (16 * w), ?H1, ?W1] [B, channels8 (576 * w), H', W']"
    by (rule Sequential_append_shape [OF M T])
  have "maps_shape (Sequential_forward ?f q 0 ([FConvNormActivation ?stem]
        @ map FInvertedResidual blocks @ [FConvNormActivation ?tail]))
      [B, 3, H, W] [B, channels8 (576 * w), H', W']"
    using Sequential_append_shape [OF S] MT by simp
  then have F: "maps_shape (Sequential_forward ?f q 0 (features net))
      [B, 3, H, W] [B, channels8 (576 * w), H', W']"
    by (simp add: net_def)
  from maps_shapeD [OF F x] obtain y1 where y1:
    "Sequential_forward ?f q 0 (features net) x = Inr y1"
    "shape y1 = [B, channels8 (576 * w), H', W']" by blast
  from maps_shapeD [OF AdaptiveAvgPool2d_forward_shape [OF channels8_pos hw] y1(2)]
  obtain y2 where y2: "AdaptiveAvgPool2d_forward (AdaptiveAvgPool2d 1) y1 = Inr y2"
    "shape y2 = [B, channels8 (576 * w), 1, 1]" by blast
  from maps_shapeD [OF flatten1_pooled_shape y2(2)]
  obtain y3 where y3: "flatten1 y2 = Inr y3" "shape y3 = [B, channels8 (576 * w)]" by blast
  have cls: "classifier net =
            [HLinear \<lparr>in_features = channels8 (576 * w),
                      out_features = channels8 (real_of_int (1024 div (if rt then 2 else 1)) * w)\<rparr>,
             HActivation Hardswish,
             HDropout p,
             HLinear \<lparr>in_features = channels8 (real_of_int (1024 div (if rt then 2 else 1)) * w),
                      out_features = nc\<rparr>]"
    by (simp add: net_def)
  from maps_shapeD [OF classifier_forward_shape [OF nc, of P "[Attr ''classifier'']"
      "channels8 (576 * w)" "real_of_int (1024 div (if rt then 2 else 1)) * w" p B] y3(2)]
  obtain y4 where y4: "Sequential_forward (head_layer_forward P) [Attr ''classifier''] 0
      (classifier net) y3 = Inr y4" "shape y4 = [B, nc]"
    unfolding cls by blast
  have "MobileNetV3Small_forward P net x = Inr y4"
  proof -
    have "net_avgpool net = AdaptiveAvgPool2d 1" by (simp add: net_def)
    then show ?thesis
      using y1 y2 y3 y4(1) by (simp add: MobileNetV3Small_forward_def q_def)
  qed
  with net y4(2) show ?thesis by blast
qed



lemma chain_nth:
  assumes "chain c cs" and "Suc i < length cs"
  shows "out_channels (cs ! i) = input_channels (cs ! Suc i)"
  using assms
proof (induction cs arbitrary: c i)
  case Nil
  then show ?case by simp
next
  case (Cons a cs)
  show ?case
  proof (cases i)
    case 0
    with Cons.prems show ?thesis by (cases cs) simp_all
  next
    case (Suc j)
    with Cons.prems Cons.IH [of "out_channels a" j] show ?thesis by simp
  qed
qed

lemma collect_Inr_map: "collect rs = Inr xs \<Longrightarrow> map Inr xs = rs"
proof (induction rs arbitrary: xs)
  case Nil
  then show ?case by simp
next
  case (Cons r rs)
  then show ?case by (auto simp add: collect_Cons_Inr simp del: collect.simps(2))
qed

lemma InvertedResidual_out_channels:
  "InvertedResidual cnf nl sl = Inr m \<Longrightarrow> ir_out_channels m = out_channels cnf"
  by (auto simp add: InvertedResidual_def Let_def make_divisible_8 split: if_splits)

lemma collect_blocks_out_channels:
  "collect (map (\<lambda>cnf. InvertedResidual cnf nl sl) cs) = Inr blocks \<Longrightarrow>
   map ir_out_channels blocks = map out_channels cs"
proof (induction cs arbitrary: blocks)
  case Nil
  then show ?case by simp
next
  case (Cons c cs)
  then show ?case
    by (auto simp add: collect_Cons_Inr InvertedResidual_out_channels simp del: collect.simps(2))
qed

lemma setting_rows_length: "length (setting_rows w rt dl) = 11"
  by (simp add: setting_rows_def Let_def)

lemma setting_rows_hd: "input_channels (setting_rows w rt dl ! 0) = channels8 (16 * w)"
  by (simp add: setting_rows_def Let_def)

lemma ConvNormActivation_out_channels:
  "cna_out_channels (ConvNormActivation a b k s pd g nl act d bs) = b"
  by (simp add: ConvNormActivation_def Let_def)



section \<open>The shortcut and the gate\<close>

lemma tensor_add_same_shape:
  assumes "shape r = shape x"
  shows "\<exists>y. tensor_add x r = Inr y \<and> shape y = shape x
             \<and> (\<forall>i. valid_index (shape x) i \<longrightarrow> elem y i = elem x i + elem r i)"
  using assms
  by (simp add: tensor_add_def tensor_binop_def broadcast_shapes_same broadcast_index_valid)

lemma InvertedResidual_flag:
  assumes "InvertedResidual cnf nl sl = Inr m"
  shows "use_res_connect m = (stride cnf = 1 \<and> input_channels cnf = out_channels cnf)"
  using assms
  by (auto simp add: InvertedResidual_def Let_def make_divisible_8 split: if_splits)

text \<open>
  Claim C4. For every \<open>InvertedResidual\<close> block successfully constructed from a config,
  the shortcut flag is true if and only if the config has \<open>stride = 1\<close> and
  \<open>input_channels = out_channels\<close>; \<open>forward\<close> returns the result of the composed stages
  plus the input exactly when the flag is true, and the result of the stages alone
  otherwise; the sum is element by element; a block with stride 2 and equal input and
  output channels has no shortcut.
\<close>

theorem InvertedResidual_shortcut:
  assumes "InvertedResidual cnf nl sl = Inr m"
  shows "(use_res_connect m \<longleftrightarrow> stride cnf = 1 \<and> input_channels cnf = out_channels cnf)
       \<and> InvertedResidual_forward P p m x =
           (if stride cnf = 1 \<and> input_channels cnf = out_channels cnf
            then bind_result (InvertedResidual_block P p m x) (\<lambda>result. tensor_add x result)
            else InvertedResidual_block P p m x)
       \<and> (\<forall>r. InvertedResidual_block P p m x = Inr r \<and> shape r = shape x
               \<and> stride cnf = 1 \<and> input_channels cnf = out_channels cnf \<longrightarrow>
             (\<exists>y. InvertedResidual_forward P p m x = Inr y \<and> shape y = shape x
                \<and> (\<forall>i. valid_index (shape x) i \<longrightarrow> elem y i = elem x i + elem r i)))
       \<and> (stride cnf = 2 \<and> input_channels cnf = out_channels cnf \<longrightarrow> \<not> use_res_connect m)"
proof -
  have flag: "use_res_connect m = (stride cnf = 1 \<and> input_channels cnf = out_channels cnf)"
    using assms by (rule InvertedResidual_flag)
  have fwd: "InvertedResidual_forward P p m x =
           (if stride cnf = 1 \<and> input_channels cnf = out_channels cnf
            then bind_result (InvertedResidual_block P p m x) (\<lambda>result. tensor_add x result)
            else InvertedResidual_block P p m x)"
    by (cases "InvertedResidual_block P p m x") (simp_all add: InvertedResidual_forward_def flag)
  have elt: "\<exists>y. InvertedResidual_forward P p m x = Inr y \<and> shape y = shape x
                \<and> (\<forall>i. valid_index (shape x) i \<longrightarrow> elem y i = elem x i + elem r i)"
    if "InvertedResidual_block P p m x = Inr r" "shape r = shape x"
       "stride cnf = 1 \<and> input_channels cnf = out_channels cnf" for r
    using that tensor_add_same_shape [of r x] by (simp add: fwd)
  from flag fwd elt show ?thesis by auto
qed

theorem InvertedResidual_shortcut_witness:
  "(\<exists>m r y. InvertedResidual
        \<lparr>input_channels = 24, kernel = 3, expanded_channels = 88, out_channels = 24,
         use_se = False, activation = ''RE'', stride = 1, dilation = 1\<rparr>
        norm_layer_default se_layer_default = Inr m
      \<and> use_res_connect m
      \<and> InvertedResidual_block
          \<lparr>conv2d_values = (\<lambda>p c t i. 2), batch_norm_values = (\<lambda>p b t i. 3),
           linear_values = (\<lambda>p l t i. 0), dropout_values = (\<lambda>p r t i. 0)\<rparr>
          [] m \<lparr>shape = [1, 24, 4, 4], elem = (\<lambda>i. 5)\<rparr> = Inr r
      \<and> shape r = [1, 24, 4, 4]
      \<and> InvertedResidual_forward
          \<lparr>conv2d_values = (\<lambda>p c t i. 2), batch_norm_values = (\<lambda>p b t i. 3),
           linear_values = (\<lambda>p l t i. 0), dropout_values = (\<lambda>p r t i. 0)\<rparr>
          [] m \<lparr>shape = [1, 24, 4, 4], elem = (\<lambda>i. 5)\<rparr> = Inr y
      \<and> shape y = [1, 24, 4, 4]
      \<and> elem y [0, 23, 3, 3] = 5 + elem r [0, 23, 3, 3])
   \<and> (\<exists>m. InvertedResidual
        \<lparr>input_channels = 16, kernel = 3, expanded_channels = 16, out_channels = 16,
         use_se = True, activation = ''RE'', stride = 2, dilation = 1\<rparr>
        norm_layer_default se_layer_default = Inr m
      \<and> \<not> use_res_connect m)"
proof -
  let ?cnfA = "\<lparr>input_channels = 24, kernel = 3, expanded_channels = 88, out_channels = 24,
         use_se = False, activation = ''RE'', stride = 1, dilation = 1\<rparr>"
  let ?cnfB = "\<lparr>input_channels = 16, kernel = 3, expanded_channels = 16, out_channels = 16,
         use_se = True, activation = ''RE'', stride = 2, dilation = 1\<rparr>"
  let ?P = "\<lparr>conv2d_values = (\<lambda>p c t i. 2), batch_norm_values = (\<lambda>p b t i. 3),
           linear_values = (\<lambda>p l t i. 0), dropout_values = (\<lambda>p r t i. 0)\<rparr>"
  let ?x = "\<lparr>shape = [1, 24, 4, 4], elem = (\<lambda>i. 5)\<rparr>"
  obtain mA where mA: "InvertedResidual ?cnfA norm_layer_default se_layer_default = Inr mA"
    using InvertedResidual_eq [of ?cnfA norm_layer_default se_layer_default] by simp
  obtain mB where mB: "InvertedResidual ?cnfB norm_layer_default se_layer_default = Inr mB"
    using InvertedResidual_eq [of ?cnfB norm_layer_default se_layer_default] by simp
  have okA: "config_ok ?cnfA" by (simp add: config_ok_def)
  from maps_shapeD [OF InvertedResidual_block_shape [OF okA norm_layer_default_features mA,
      of 4 4 ?P "[]" 1], of ?x]
  obtain r where r: "InvertedResidual_block ?P [] mA ?x = Inr r" "shape r = [1, 24, 4, 4]"
    by auto
  have vi: "valid_index [1, 24, 4, 4] [0, 23, 3, 3]" by (simp add: valid_index_def)
  note T = InvertedResidual_shortcut [OF mA, of ?P "[]" ?x]
  from T have flagA: "use_res_connect mA" by simp
  note T3 = conjunct1 [OF conjunct2 [OF conjunct2 [OF T]]]
  from T3 r have "\<exists>y. InvertedResidual_forward ?P [] mA ?x = Inr y \<and> shape y = shape ?x
      \<and> (\<forall>i. valid_index (shape ?x) i \<longrightarrow> elem y i = elem ?x i + elem r i)"
    by simp
  then obtain y where y: "InvertedResidual_forward ?P [] mA ?x = Inr y" "shape y = shape ?x"
    "\<forall>i. valid_index (shape ?x) i \<longrightarrow> elem y i = elem ?x i + elem r i"
    by blast
  from y(3) vi have "elem y [0, 23, 3, 3] = 5 + elem r [0, 23, 3, 3]" by simp
  with y(1,2) flagA
  have "use_res_connect mA" and "\<exists>y. InvertedResidual_forward ?P [] mA ?x = Inr y
      \<and> shape y = [1, 24, 4, 4] \<and> elem y [0, 23, 3, 3] = 5 + elem r [0, 23, 3, 3]"
    by simp_all
  moreover from InvertedResidual_shortcut [OF mB, of ?P "[]" ?x]
  have "\<not> use_res_connect mB" by simp
  ultimately show ?thesis using mA mB r by blast
qed

lemma SqueezeExcitation_scale_in_range:
  assumes "scale_activation m = Hardsigmoid" and "SqueezeExcitation_scale P p m x = Inr s"
  shows "0 \<le> elem s i \<and> elem s i \<le> 1"
proof -
  from assms(2) obtain t where "s = activation_forward (scale_activation m) t"
    by (auto simp add: SqueezeExcitation_scale_def Let_def bind_result_def split: sum.splits)
  then show ?thesis
    using apply_Hardsigmoid_range by (simp add: assms(1) activation_forward_def)
qed

lemma SqueezeExcitation_forward_mul:
  assumes "SqueezeExcitation_forward P p m x = Inr y"
  shows "\<exists>s. SqueezeExcitation_scale P p m x = Inr s \<and> tensor_mul x s = Inr y"
  using assms
  by (cases "SqueezeExcitation_scale P p m x") (simp_all add: SqueezeExcitation_forward_def)

text \<open>
  Claim C7. For a \<open>SqueezeExcitation\<close> block with the hard-sigmoid as its scale
  activation (global average pool, 1x1 reduce, activation, 1x1 expand, hard-sigmoid) and
  every input tensor: every element of the scale that \<open>_scale\<close> computes is in
  \<open>[0, 1]\<close>, and the output of \<open>forward\<close> is the input multiplied by that scale. On an
  input of shape \<open>[B, C, H, W]\<close>, \<open>C\<close> the block's channel count, both return: the scale
  has shape \<open>[B, C, 1, 1]\<close>, the output has the shape of the input, and the element
  \<open>[b, c, h, w]\<close> of the output is the element \<open>[b, c, h, w]\<close> of the input times the
  element \<open>[b, c, 0, 0]\<close> of the scale.
\<close>

theorem SqueezeExcitation_gate:
  assumes "0 < C" and "0 < squeeze_channels"
  shows "(\<forall>x s. SqueezeExcitation_scale P p (SqueezeExcitation C squeeze_channels a Hardsigmoid) x = Inr s
            \<longrightarrow> (\<forall>i. 0 \<le> elem s i \<and> elem s i \<le> 1))
       \<and> (\<forall>x y. SqueezeExcitation_forward P p (SqueezeExcitation C squeeze_channels a Hardsigmoid) x = Inr y
            \<longrightarrow> (\<exists>s. SqueezeExcitation_scale P p (SqueezeExcitation C squeeze_channels a Hardsigmoid) x = Inr s
                    \<and> tensor_mul x s = Inr y))
       \<and> (\<forall>x B H W. shape x = [B, C, H, W] \<and> 1 \<le> H \<and> 1 \<le> W \<longrightarrow>
            (\<exists>s y. SqueezeExcitation_scale P p (SqueezeExcitation C squeeze_channels a Hardsigmoid) x = Inr s
               \<and> shape s = [B, C, 1, 1]
               \<and> (\<forall>i. 0 \<le> elem s i \<and> elem s i \<le> 1)
               \<and> SqueezeExcitation_forward P p (SqueezeExcitation C squeeze_channels a Hardsigmoid) x = Inr y
               \<and> shape y = [B, C, H, W]
               \<and> (\<forall>b c h w. valid_index [B, C, H, W] [b, c, h, w] \<longrightarrow>
                     elem y [b, c, h, w] = elem x [b, c, h, w] * elem s [b, c, 0, 0])))"
proof -
  let ?m = "SqueezeExcitation C squeeze_channels a Hardsigmoid"
  have hs: "scale_activation ?m = Hardsigmoid" by (simp add: SqueezeExcitation_def)
  have range: "\<forall>i. 0 \<le> elem s i \<and> elem s i \<le> 1"
    if "SqueezeExcitation_scale P p ?m x = Inr s" for x s
    using SqueezeExcitation_scale_in_range [OF hs that] by blast
  have mul: "\<exists>s. SqueezeExcitation_scale P p ?m x = Inr s \<and> tensor_mul x s = Inr y"
    if "SqueezeExcitation_forward P p ?m x = Inr y" for x y
    using that by (rule SqueezeExcitation_forward_mul)
  have total: "\<exists>s y. SqueezeExcitation_scale P p ?m x = Inr s
               \<and> shape s = [B, C, 1, 1]
               \<and> (\<forall>i. 0 \<le> elem s i \<and> elem s i \<le> 1)
               \<and> SqueezeExcitation_forward P p ?m x = Inr y
               \<and> shape y = [B, C, H, W]
               \<and> (\<forall>b c h w. valid_index [B, C, H, W] [b, c, h, w] \<longrightarrow>
                     elem y [b, c, h, w] = elem x [b, c, h, w] * elem s [b, c, 0, 0])"
    if x: "shape x = [B, C, H, W]" and size: "1 \<le> H" "1 \<le> W" for x B H W
  proof -
    from maps_shapeD [OF SqueezeExcitation_scale_shape [OF assms size] x]
    obtain s where s: "SqueezeExcitation_scale P p ?m x = Inr s" "shape s = [B, C, 1, 1]"
      by blast
    define y where "y = \<lparr>shape = [B, C, H, W],
      elem = (\<lambda>i. elem x (broadcast_index (shape x) i) * elem s (broadcast_index (shape s) i))\<rparr>"
    have fw: "SqueezeExcitation_forward P p ?m x = Inr y"
      using s x by (simp add: SqueezeExcitation_forward_def tensor_mul_def tensor_binop_def
          broadcast_spatial y_def)
    have "elem y [b, c, h, w] = elem x [b, c, h, w] * elem s [b, c, 0, 0]"
      if "valid_index [B, C, H, W] [b, c, h, w]" for b c h w
      using that x s(2) by (simp add: y_def broadcast_index_valid broadcast_index_spatial)
    moreover have "shape y = [B, C, H, W]" by (simp add: y_def)
    ultimately show ?thesis using s fw range [OF s(1)] by blast
  qed
  from range mul total show ?thesis by blast
qed

theorem SqueezeExcitation_gate_witness:
  "(0::int) < 16 \<and> (0::int) < 8
   \<and> (\<exists>s y. SqueezeExcitation_scale
         \<lparr>conv2d_values = (\<lambda>p c t i. 0), batch_norm_values = (\<lambda>p b t i. 0),
          linear_values = (\<lambda>p l t i. 0), dropout_values = (\<lambda>p r t i. 0)\<rparr>
         [] (SqueezeExcitation 16 8 ReLU Hardsigmoid) \<lparr>shape = [1, 16, 2, 2], elem = (\<lambda>i. 7)\<rparr> = Inr s
       \<and> shape s = [1, 16, 1, 1]
       \<and> elem s [0, 3, 0, 0] = 1 / 2
       \<and> SqueezeExcitation_forward
         \<lparr>conv2d_values = (\<lambda>p c t i. 0), batch_norm_values = (\<lambda>p b t i. 0),
          linear_values = (\<lambda>p l t i. 0), dropout_values = (\<lambda>p r t i. 0)\<rparr>
         [] (SqueezeExcitation 16 8 ReLU Hardsigmoid) \<lparr>shape = [1, 16, 2, 2], elem = (\<lambda>i. 7)\<rparr> = Inr y
       \<and> shape y = [1, 16, 2, 2]
       \<and> elem y [0, 3, 1, 1] = 7 * elem s [0, 3, 0, 0])"
proof -
  let ?P = "\<lparr>conv2d_values = (\<lambda>p c t i. 0), batch_norm_values = (\<lambda>p b t i. 0),
          linear_values = (\<lambda>p l t i. 0), dropout_values = (\<lambda>p r t i. 0)\<rparr>"
  let ?x = "\<lparr>shape = [1, 16, 2, 2], elem = (\<lambda>i. 7)\<rparr>"
  let ?m = "SqueezeExcitation 16 8 ReLU Hardsigmoid"
  have pos: "(0::int) < 16" "(0::int) < 8" by simp_all
  note G = SqueezeExcitation_gate [OF pos, of ?P "[]" ReLU]
  note G3 = conjunct2 [OF conjunct2 [OF G]]
  from G3 [rule_format, of ?x 1 2 2]
  have "\<exists>s y. SqueezeExcitation_scale ?P [] ?m ?x = Inr s
               \<and> shape s = [1, 16, 1, 1]
               \<and> (\<forall>i. 0 \<le> elem s i \<and> elem s i \<le> 1)
               \<and> SqueezeExcitation_forward ?P [] ?m ?x = Inr y
               \<and> shape y = [1, 16, 2, 2]
               \<and> (\<forall>b c h w. valid_index [1, 16, 2, 2] [b, c, h, w] \<longrightarrow>
                     elem y [b, c, h, w] = elem ?x [b, c, h, w] * elem s [b, c, 0, 0])"
    by simp
  then obtain s y where s: "SqueezeExcitation_scale ?P [] ?m ?x = Inr s" "shape s = [1, 16, 1, 1]"
    and y: "SqueezeExcitation_forward ?P [] ?m ?x = Inr y" "shape y = [1, 16, 2, 2]"
    and e: "\<forall>b c h w. valid_index [1, 16, 2, 2] [b, c, h, w] \<longrightarrow>
                     elem y [b, c, h, w] = elem ?x [b, c, h, w] * elem s [b, c, 0, 0]"
    by blast
  have "valid_index [1, 16, 2, 2] [0, 3, 1, 1]" by (simp add: valid_index_def)
  with e have e1: "elem y [0, 3, 1, 1] = 7 * elem s [0, 3, 0, 0]" by simp
  have "SqueezeExcitation_scale ?P [] ?m ?x
      = Inr \<lparr>shape = [1, 16, 1, 1], elem = (\<lambda>i. apply_activation Hardsigmoid 0)\<rparr>"
    by (simp add: SqueezeExcitation_scale_def SqueezeExcitation_def AdaptiveAvgPool2d_forward_def
        Conv2d_forward_def conv_args_ok_def conv_out_size_def activation_forward_def Let_def)
  with s(1) have "elem s [0, 3, 0, 0] = 1 / 2" by (auto simp add: apply_activation_def)
  with s y e1 pos show ?thesis by blast
qed

section \<open>The default assembly\<close>

lemma setting_rows_default:
  "setting_rows 1 False False =
     [\<lparr>input_channels = 16, kernel = 3, expanded_channels = 16, out_channels = 16,
       use_se = True, activation = ''RE'', stride = 2, dilation = 1\<rparr>,
      \<lparr>input_channels = 16, kernel = 3, expanded_channels = 72, out_channels = 24,
       use_se = False, activation = ''RE'', stride = 2, dilation = 1\<rparr>,
      \<lparr>input_channels = 24, kernel = 3, expanded_channels = 88, out_channels = 24,
       use_se = False, activation = ''RE'', stride = 1, dilation = 1\<rparr>,
      \<lparr>input_channels = 24, kernel = 5, expanded_channels = 96, out_channels = 40,
       use_se = True, activation = ''HS'', stride = 2, dilation = 1\<rparr>,
      \<lparr>input_channels = 40, kernel = 5, expanded_channels = 240, out_channels = 40,
       use_se = True, activation = ''HS'', stride = 1, dilation = 1\<rparr>,
      \<lparr>input_channels = 40, kernel = 5, expanded_channels = 240, out_channels = 40,
       use_se = True, activation = ''HS'', stride = 1, dilation = 1\<rparr>,
      \<lparr>input_channels = 40, kernel = 5, expanded_channels = 120, out_channels = 48,
       use_se = True, activation = ''HS'', stride = 1, dilation = 1\<rparr>,
      \<lparr>input_channels = 48, kernel = 5, expanded_channels = 144, out_channels = 48,
       use_se = True, activation = ''HS'', stride = 1, dilation = 1\<rparr>,
      \<lparr>input_channels = 48, kernel = 5, expanded_channels = 288, out_channels = 96,
       use_se = True, activation = ''HS'', stride = 2, dilation = 1\<rparr>,
      \<lparr>input_channels = 96, kernel = 5, expanded_channels = 576, out_channels = 96,
       use_se = True, activation = ''HS'', stride = 1, dilation = 1\<rparr>,
      \<lparr>input_channels = 96, kernel = 5, expanded_channels = 576, out_channels = 96,
       use_se = True, activation = ''HS'', stride = 1, dilation = 1\<rparr>]"
  by (simp add: setting_rows_def Let_def channels8_def py_int_def)

lemma channels8_default: "channels8 16 = 16" "channels8 96 = 96" "channels8 576 = 576"
  "channels8 1024 = 1024"
  by (simp_all add: channels8_def py_int_def)

lemma stem_default:
  "ConvNormActivation 3 16 3 2 None 1 (Some norm_layer_default) (Some Hardswish) 1 None =
     \<lparr>layers =
        [LConv2d \<lparr>conv_in_channels = 3, conv_out_channels = 16, conv_kernel_size = 3,
                  conv_stride = 2, conv_padding = 1, conv_dilation = 1, conv_groups = 1,
                  conv_bias = False\<rparr>,
         LBatchNorm2d \<lparr>num_features = 16, eps = 0.001, momentum = 0.01\<rparr>,
         LActivation Hardswish],
      cna_out_channels = 16\<rparr>"
  by (simp add: ConvNormActivation_def Let_def norm_layer_default_def)

lemma tail_default:
  "ConvNormActivation 96 576 1 1 None 1 (Some norm_layer_default) (Some Hardswish) 1 None =
     \<lparr>layers =
        [LConv2d \<lparr>conv_in_channels = 96, conv_out_channels = 576, conv_kernel_size = 1,
                  conv_stride = 1, conv_padding = 0, conv_dilation = 1, conv_groups = 1,
                  conv_bias = False\<rparr>,
         LBatchNorm2d \<lparr>num_features = 576, eps = 0.001, momentum = 0.01\<rparr>,
         LActivation Hardswish],
      cna_out_channels = 576\<rparr>"
  by (simp add: ConvNormActivation_def Let_def norm_layer_default_def)



section \<open>The pretrained transplant\<close>

lemma MobileNetV3Small_total:
  "\<exists>net. MobileNetV3Small nc w p rt dl nlo = Inr net"
proof -
  define nl where "nl = (case nlo of None \<Rightarrow> norm_layer_default | Some f \<Rightarrow> f)"
  obtain blocks where
    "collect (map (\<lambda>cnf. InvertedResidual cnf nl se_layer_default) (setting_rows w rt dl)) = Inr blocks"
    using collect_blocks_total [OF setting_rows_ok] by blast
  from MobileNetV3Small_eq [OF nl_def this] show ?thesis by blast
qed

lemma load_state_dict_Inr: "load_state_dict own sd = Inr r \<Longrightarrow> r = sd \<and> dom sd = dom own"
  by (auto simp add: load_state_dict_def split: if_splits)

lemma startswith_classifier_child:
  assumes "startswith k ''classifier.''"
  shows "startswith k ''classifier''"
proof -
  from assms have "take (length ''classifier.'') k = ''classifier.''"
    by (simp only: startswith_def)
  then have "take (length ''classifier'') (take (length ''classifier.'') k)
      = take (length ''classifier'') ''classifier.''"
    by (rule arg_cong)
  then show ?thesis by (simp add: startswith_def)
qed

lemma startswith_features_child:
  assumes "startswith k ''features.''"
  shows "\<not> startswith k ''classifier''"
proof
  assume "startswith k ''classifier''"
  then have "take (length ''classifier'') k = ''classifier''" by (simp only: startswith_def)
  then have "take (Suc 0) (take (length ''classifier'') k) = take (Suc 0) ''classifier''"
    by (rule arg_cong)
  then have c: "take (Suc 0) k = ''c''" by simp
  from assms have "take (length ''features.'') k = ''features.''" by (simp only: startswith_def)
  then have "take (Suc 0) (take (length ''features.'') k) = take (Suc 0) ''features.''"
    by (rule arg_cong)
  then have "take (Suc 0) k = ''f''" by simp
  with c show False by simp
qed

text \<open>
  Claim C9. When the pretrained transplant succeeds and the target \<open>num_classes\<close>
  differs from the source's 1000, every entry of the source whose name is outside the
  classifier subtree is in the target's state dictionary, and every entry of the
  classifier subtree, like every entry the source does not have, keeps its freshly
  initialized value. The source tells the subtree by the names that start with
  \<open>classifier\<close>; the module has the children \<open>features\<close>, \<open>avgpool\<close> and
  \<open>classifier\<close>, so these are the names below \<open>classifier.\<close>, and the names below
  \<open>features.\<close> are outside. When \<open>num_classes\<close> is 1000, the target's state dictionary
  is the source's, classifier included. In both cases the target keeps exactly its own
  names.
\<close>

theorem pretrained_transplant:
  assumes "mobilenet_v3_small True kw initial tv_state_dict = Inr (model, sd)"
  shows "(get_default (kw_num_classes kw) 1000 \<noteq> 1000 \<longrightarrow>
            (\<forall>k. \<not> startswith k ''classifier'' \<and> k \<in> dom tv_state_dict \<longrightarrow> sd k = tv_state_dict k)
          \<and> (\<forall>k. startswith k ''features.'' \<and> k \<in> dom tv_state_dict \<longrightarrow> sd k = tv_state_dict k)
          \<and> (\<forall>k. startswith k ''classifier'' \<longrightarrow> sd k = initial k)
          \<and> (\<forall>k. startswith k ''classifier.'' \<longrightarrow> sd k = initial k)
          \<and> (\<forall>k. k \<notin> dom tv_state_dict \<longrightarrow> sd k = initial k))
       \<and> (get_default (kw_num_classes kw) 1000 = 1000 \<longrightarrow> sd = tv_state_dict)
       \<and> dom sd = dom initial"
proof (cases "get_default (kw_num_classes kw) 1000 = 1000")
  case True
  with assms have "load_state_dict initial tv_state_dict = Inr sd"
    by (cases "MobileNetV3Small_kwargs kw"; cases "load_state_dict initial tv_state_dict")
       (simp_all add: mobilenet_v3_small_def)
  from load_state_dict_Inr [OF this] True show ?thesis by simp
next
  case False
  define pre where
    "pre = (\<lambda>k. if \<not> startswith k ''classifier'' then tv_state_dict k else None)"
  from False assms have "load_state_dict initial (initial ++ pre) = Inr sd"
    by (cases "MobileNetV3Small_kwargs kw"; cases "load_state_dict initial (initial ++ pre)")
       (simp_all add: mobilenet_v3_small_def Let_def pre_def)
  from load_state_dict_Inr [OF this] have sd: "sd = initial ++ pre" and d: "dom sd = dom initial"
    by simp_all
  have copied: "sd k = tv_state_dict k"
    if "\<not> startswith k ''classifier''" "k \<in> dom tv_state_dict" for k
    using that by (auto simp add: sd pre_def map_add_def split: option.splits)
  have kept: "sd k = initial k" if "startswith k ''classifier''" for k
    using that by (simp add: sd pre_def map_add_def)
  have "sd k = tv_state_dict k" if "startswith k ''features.''" "k \<in> dom tv_state_dict" for k
    using that copied startswith_features_child by blast
  moreover have "sd k = initial k" if "startswith k ''classifier.''" for k
    using that kept startswith_classifier_child by blast
  moreover have "sd k = initial k" if "k \<notin> dom tv_state_dict" for k
    using that by (auto simp add: sd pre_def map_add_def split: option.splits)
  ultimately show ?thesis using False d copied kept by blast
qed

theorem pretrained_transplant_witness:
  "\<exists>model sd.
     mobilenet_v3_small True
       \<lparr>kw_num_classes = Some 10, kw_width_mult = None, kw_dropout = None,
        kw_reduced_tail = None, kw_dilated = None, kw_norm_layer = None\<rparr>
       [''features.0.0.weight'' \<mapsto> \<lparr>shape = [16, 3, 3, 3], elem = (\<lambda>i. 0)\<rparr>,
        ''classifier.3.bias'' \<mapsto> \<lparr>shape = [10], elem = (\<lambda>i. 0)\<rparr>]
       [''features.0.0.weight'' \<mapsto> \<lparr>shape = [16, 3, 3, 3], elem = (\<lambda>i. 1)\<rparr>,
        ''classifier.3.bias'' \<mapsto> \<lparr>shape = [1000], elem = (\<lambda>i. 1)\<rparr>]
       = Inr (model, sd)
     \<and> sd ''features.0.0.weight'' = Some \<lparr>shape = [16, 3, 3, 3], elem = (\<lambda>i. 1)\<rparr>
     \<and> sd ''classifier.3.bias'' = Some \<lparr>shape = [10], elem = (\<lambda>i. 0)\<rparr>"
proof -
  let ?kw = "\<lparr>kw_num_classes = Some 10, kw_width_mult = None, kw_dropout = None,
        kw_reduced_tail = None, kw_dilated = None, kw_norm_layer = None\<rparr>"
  let ?init = "[''features.0.0.weight'' \<mapsto> \<lparr>shape = [16, 3, 3, 3], elem = (\<lambda>i. 0::real)\<rparr>,
        ''classifier.3.bias'' \<mapsto> \<lparr>shape = [10], elem = (\<lambda>i. 0)\<rparr>]"
  let ?src = "[''features.0.0.weight'' \<mapsto> \<lparr>shape = [16, 3, 3, 3], elem = (\<lambda>i. 1::real)\<rparr>,
        ''classifier.3.bias'' \<mapsto> \<lparr>shape = [1000], elem = (\<lambda>i. 1)\<rparr>]"
  let ?sd = "[''features.0.0.weight'' \<mapsto> \<lparr>shape = [16, 3, 3, 3], elem = (\<lambda>i. 1::real)\<rparr>,
        ''classifier.3.bias'' \<mapsto> \<lparr>shape = [10], elem = (\<lambda>i. 0)\<rparr>]"
  obtain model where model: "MobileNetV3Small_kwargs ?kw = Inr model"
    unfolding MobileNetV3Small_kwargs_def using MobileNetV3Small_total by blast
  have pre: "(\<lambda>k. if \<not> startswith k ''classifier'' then ?src k else None)
      = [''features.0.0.weight'' \<mapsto> \<lparr>shape = [16, 3, 3, 3], elem = (\<lambda>i. 1::real)\<rparr>]"
    by (rule ext) (simp add: startswith_def)
  have upd: "?init ++ [''features.0.0.weight'' \<mapsto> \<lparr>shape = [16, 3, 3, 3], elem = (\<lambda>i. 1::real)\<rparr>]
      = ?sd"
    by (rule ext) (simp add: map_add_def)
  have "load_state_dict ?init ?sd = Inr ?sd"
    by (simp add: load_state_dict_def)
  then have load: "load_state_dict ?init
      (?init ++ [''features.0.0.weight'' \<mapsto> \<lparr>shape = [16, 3, 3, 3], elem = (\<lambda>i. 1::real)\<rparr>])
      = Inr ?sd"
    by (simp only: upd)
  have gd: "get_default (kw_num_classes ?kw) 1000 \<noteq> 1000" by (simp add: get_default_def)
  have run: "mobilenet_v3_small True ?kw ?init ?src = Inr (model, ?sd)"
    unfolding mobilenet_v3_small_def Let_def pre load model using gd
    by (simp only: bind_result_Inr simp_thms if_True if_False)
  from pretrained_transplant [OF run]
  have "?sd ''features.0.0.weight'' = ?src ''features.0.0.weight''"
    and "?sd ''classifier.3.bias'' = ?init ''classifier.3.bias''"
    by (simp_all add: startswith_def get_default_def)
  with run show ?thesis by (intro exI [of _ model] exI [of _ ?sd]) simp
qed

end
